theory Spec2Isabelle
  imports Complex_Main
begin

section \<open>Data shared by the scraper scripts\<close>

text \<open>
  The repository is six stand-alone scripts that repeat one collection loop with small
  variations.  The names below are the scripts' own; a suffix tells the script where two
  scripts define the same name differently:
  \<^item> \<open>_1k\<close>: \<^verbatim>\<open>1k.tweet.py\<close>,
  \<^item> \<open>_2\<close>: \<^verbatim>\<open>1k.tweet_2.py\<close>,
  \<^item> \<open>_3\<close>: \<^verbatim>\<open>1k.tweet_3.py\<close>,
  \<^item> \<open>_X\<close>: \<^verbatim>\<open>Dynamic_scrapping_X.py\<close>,
  \<^item> \<open>_D\<close>: \<^verbatim>\<open>Dynamic_scrapping/init.py\<close> (the per-day scraper).

  A pagination cursor is a string or Python's \<open>None\<close>.  Python tests cursors for
  truthiness: \<open>None\<close> and the empty string are both false.
\<close>

type_synonym cursor = "string option"

definition truthy :: "cursor \<Rightarrow> bool" where
  "truthy c = (case c of None \<Rightarrow> False | Some s \<Rightarrow> s \<noteq> [])"

text \<open>
  A tweet as the scripts read it: \<open>tw.id\<close>, \<open>tw.user.screen_name\<close>, \<open>tw.text\<close>,
  \<open>tw.created_at\<close> and three counters.  The id is a string, as are the ids read back
  from the CSV file, so membership in the set of known ids compares strings.
\<close>

record tweet =
  tweet_id :: string
  screen_name :: string
  tweet_text :: string
  created_at :: string
  retweet_count :: int
  favorite_count :: int
  reply_count :: int

text \<open>A CSV file is the list of its rows; a row is the list of its cells; a blank line
  reads as the empty row.  A file that does not exist is \<open>None\<close>.\<close>

type_synonym row = "string list"
type_synonym csv_file = "row list option"

fun str_nat :: "nat \<Rightarrow> string" where
  "str_nat n = (if n < 10 then [''0123456789'' ! n] else str_nat (n div 10) @ [''0123456789'' ! (n mod 10)])"

declare str_nat.simps [simp del]

definition str_int :: "int \<Rightarrow> string" where
  "str_int i = (if i < 0 then CHR ''-'' # str_nat (nat (- i)) else str_nat (nat i))"

definition HEADER :: row where
  "HEADER = [''ID'', ''Username'', ''Text'', ''Created At'', ''Retweets'', ''Likes'', ''Replies'']"

definition row_of :: "tweet \<Rightarrow> row" where
  "row_of tw = [tweet_id tw, ''@'' @ screen_name tw, tweet_text tw, created_at tw,
     str_int (retweet_count tw), str_int (favorite_count tw), str_int (reply_count tw)]"

text \<open>
  JSON values, for the checkpoint files.  A Python dict is an object: a list of
  key/value pairs, read with \<open>map_of\<close> and written with \<open>dict_update\<close>.
\<close>

datatype json = JNull | JBool bool | JNum int | JStr string | JArr "json list"
  | JObj "(string \<times> json) list"

fun dict_update :: "string \<Rightarrow> json \<Rightarrow> (string \<times> json) list \<Rightarrow> (string \<times> json) list" where
  "dict_update k v [] = [(k, v)]"
| "dict_update k v ((k', v') # kvs) =
     (if k' = k then (k, v) # kvs else (k', v') # dict_update k v kvs)"

definition json_of_cursor :: "cursor \<Rightarrow> json" where
  "json_of_cursor c = (case c of None \<Rightarrow> JNull | Some s \<Rightarrow> JStr s)"

definition json_of_stamp :: "string option \<Rightarrow> json" where
  "json_of_stamp c = (case c of None \<Rightarrow> JNull | Some s \<Rightarrow> JStr s)"

text \<open>
  What the remote search client answers to one call of \<open>client.search_tweet\<close>:
  \<^item> a result page: its tweets, its own continuation token \<open>next_cursor\<close>, and what the
    page's \<open>next()\<close> method gives when called (it raises, or it returns the following page,
    of which the scripts read only the tweets' container and \<open>next_cursor\<close>);
  \<^item> the exception \<open>TooManyRequests\<close>, with the reading of \<open>time.time()\<close> in the handler
    and with its attribute \<open>rate_limit_reset\<close>: the exception has no such attribute, or the
    attribute is \<open>None\<close>, or it is a time;
  \<^item> any other exception.
  A result comes with the string \<open>datetime.now().isoformat()\<close> gives when it is recorded.
  Times are reals: the rounding of Python's floats is not modelled.
\<close>

datatype next_result = NextRaises | NextResult "tweet list" cursor

record page =
  tweets :: "tweet list"
  next_cursor :: cursor
  next_page :: next_result

datatype rate_limit_reset = NoAttribute | AttributeNone | ResetAt real

datatype response =
    Result page string
  | TooManyRequests rate_limit_reset real
  | SearchError

text \<open>The observable effects of a run, in the order they happen.\<close>

datatype event =
    Search string string int cursor
  | Sleep real
  | SleepRandint int int int
  | WriteRow row
  | Flush
  | Advance
  | SaveCheckpoint "(string \<times> json) list"

text \<open>\<open>SleepRandint lo hi k\<close> is \<open>asyncio.sleep(random.randint(lo, hi) * k)\<close>;
  \<open>Search q p n c\<close> is \<open>client.search_tweet(q, p, count=n, cursor=c)\<close>;
  \<open>Advance\<close> is a call of a page's \<open>next()\<close>; \<open>SaveCheckpoint d\<close> is
  \<open>json.dump(d, f)\<close> into the checkpoint file.\<close>

text \<open>The variables every script's loop has: the collected count, the cursor, the
  set of known ids, the rows of the output file, and the trace of effects.\<close>

record loop_state =
  collected :: int
  cursor :: cursor
  existing_ids :: "string set"
  sink :: "row list"
  events :: "event list"

definition log :: "event list \<Rightarrow> 'a loop_state_scheme \<Rightarrow> 'a loop_state_scheme" where
  "log es s = s\<lparr>events := events s @ es\<rparr>"

definition writerow :: "row \<Rightarrow> 'a loop_state_scheme \<Rightarrow> 'a loop_state_scheme" where
  "writerow r s = s\<lparr>sink := sink s @ [r], events := events s @ [WriteRow r]\<rparr>"

section \<open>The deduplicating writer and the rehydration of the index\<close>

text \<open>
  \<open>save_tweets_batch(tweets, writer, existing_ids)\<close>: the same loop in every script (the
  two Dynamic scripts wrap the write in a \<open>try\<close> for I/O errors, which are not modelled).
  The counter \<open>new_count\<close> is the accumulator.
\<close>

fun save_tweets_loop :: "tweet list \<Rightarrow> int \<Rightarrow> 'a loop_state_scheme \<Rightarrow> int \<times> 'a loop_state_scheme" where
  "save_tweets_loop [] new_count s = (new_count, s)"
| "save_tweets_loop (tw # tws) new_count s =
     (if tweet_id tw \<in> existing_ids s then save_tweets_loop tws new_count s
      else save_tweets_loop tws (new_count + 1)
             ((writerow (row_of tw) s)\<lparr>existing_ids := insert (tweet_id tw) (existing_ids s)\<rparr>))"

definition save_tweets_batch :: "tweet list \<Rightarrow> 'a loop_state_scheme \<Rightarrow> int \<times> 'a loop_state_scheme" where
  "save_tweets_batch tws s = save_tweets_loop tws 0 s"

text \<open>\<open>init_existing_ids(csv_path)\<close>: skip the first row, then collect the first cell of
  every row that is not empty.\<close>

definition init_existing_ids :: "csv_file \<Rightarrow> string set" where
  "init_existing_ids f =
     (case f of
        None \<Rightarrow> {}
      | Some rows \<Rightarrow> set (map hd (filter (\<lambda>r. r \<noteq> []) (tl rows))))"

section \<open>Searching with rate-limit handling\<close>

text \<open>
  The outcome of one call of a search wrapper: it returned (a result with the time stamp
  of its recording, or \<open>None\<close>), or an exception left it, or it is still pending when the
  observed responses end.
\<close>

datatype fetched = Returned "(page \<times> string) option" | Raised | Pending

text \<open>
  \<open>safe_search\<close> of the three \<^verbatim>\<open>1k.tweet\<close> scripts.  On \<open>TooManyRequests\<close> it reads
  \<open>getattr(e, 'rate_limit_reset', time.time() + 900)\<close>, sleeps
  \<open>max(reset_time - time.time(), 0) + 10\<close> and calls itself.  The default is taken only when the
  exception has no such attribute; when the attribute is \<open>None\<close> the subtraction raises
  \<open>TypeError\<close> inside the handler, and that exception leaves \<open>safe_search\<close> (and every call
  of it that waits for this one).  On any other exception of the search it sleeps 60
  seconds and returns \<open>None\<close>.  The responses of the client are consumed from the list, one
  per call of \<open>client.search_tweet\<close>; the rest is handed back.
\<close>

fun safe_search :: "string \<Rightarrow> string \<Rightarrow> int \<Rightarrow> cursor \<Rightarrow> response list
    \<Rightarrow> fetched \<times> event list \<times> response list" where
  "safe_search q p n c [] = (Pending, [Search q p n c], [])"
| "safe_search q p n c (Result pg now # rs) = (Returned (Some (pg, now)), [Search q p n c], rs)"
| "safe_search q p n c (TooManyRequests reset now # rs) =
     (let r = safe_search q p n c rs;
          wait_and_retry = (\<lambda>reset_time.
            (fst r, Search q p n c # Sleep (max (reset_time - now) 0 + 10) # fst (snd r), snd (snd r)))
      in case reset of
           NoAttribute \<Rightarrow> wait_and_retry (now + 900)
         | AttributeNone \<Rightarrow> (Raised, [Search q p n c], rs)
         | ResetAt t \<Rightarrow> wait_and_retry t)"
| "safe_search q p n c (SearchError # rs) = (Returned None, [Search q p n c, Sleep 60], rs)"

text \<open>The constants of the three \<^verbatim>\<open>1k.tweet\<close> scripts; \<^verbatim>\<open>Dynamic_scrapping_X.py\<close> has the
  same \<open>BATCH_SIZE\<close>.\<close>

definition MAX_TWEETS :: int where "MAX_TWEETS = 1000"
definition BATCH_SIZE :: int where "BATCH_SIZE = 20"

text \<open>How a loop iteration ends: the loop goes on (\<open>None\<close>) or the run is over.\<close>

datatype exit = Done | NoMorePages | CursorRepeated | NoNewPages | Interrupted | Crashed

text \<open>\<open>Done\<close>: the \<open>while\<close> condition is false.  \<open>NoMorePages\<close>, \<open>CursorRepeated\<close>,
  \<open>NoNewPages\<close>: the three \<open>break\<close>s of the per-day scraper.  \<open>Interrupted\<close>: the
  observed responses end while a search is pending (the process was stopped there).
  \<open>Crashed\<close>: an exception that nothing catches (an \<open>IndexError\<close>, or the \<open>TypeError\<close> out
  of \<open>safe_search\<close>) ends the run.\<close>

lemma safe_search_shorter:
  "fst (safe_search q p n c rs) \<noteq> Pending \<Longrightarrow> length (snd (snd (safe_search q p n c rs))) < length rs"
proof (induction rs)
  case Nil
  then show ?case by simp
next
  case (Cons a rs)
  then show ?case by (cases a) (auto simp: Let_def less_SucI split: rate_limit_reset.splits)
qed

section \<open>Loading a checkpoint\<close>

text \<open>
  The checkpoint file is its text, or \<open>None\<close> when \<open>os.path.exists\<close> is false.
  \<open>json.load\<close> is a parameter: it gives the parsed value, or \<open>None\<close> when it raises (the
  file does not hold well-formed JSON).  A parsed object has every key once.

  \<open>load_checkpoint\<close> of \<^verbatim>\<open>1k.tweet.py\<close>: whatever parses is returned as it is; a bare
  \<open>except\<close> swallows a failing read.
\<close>

definition default_checkpoint_1k :: json where
  "default_checkpoint_1k = JObj [(''count'', JNum 0), (''cursor'', JNull), (''product'', JStr ''Latest'')]"

definition load_checkpoint_1k :: "(string \<Rightarrow> json option) \<Rightarrow> string option \<Rightarrow> json" where
  "load_checkpoint_1k json_load file =
     (case file of
        None \<Rightarrow> default_checkpoint_1k
      | Some content \<Rightarrow>
          (case json_load content of
             None \<Rightarrow> default_checkpoint_1k
           | Some data \<Rightarrow> data))"

text \<open>
  \<open>load_checkpoint\<close> of \<^verbatim>\<open>1k.tweet_3.py\<close>, with \<open>DEFAULT_CKPT\<close>.  \<open>data.get\<close> exists on a
  dict only: on any other JSON value it raises \<open>AttributeError\<close>, which the
  \<open>except Exception\<close> swallows like a failing read.
\<close>

definition DEFAULT_CKPT :: "string \<Rightarrow> (string \<times> json) list" where
  "DEFAULT_CKPT QUERY_HASH =
     [(''query_hash'', JStr QUERY_HASH), (''count'', JNum 0), (''cursor'', JNull),
      (''last_success_time'', JNull)]"

definition load_checkpoint_3 :: "(string \<Rightarrow> json option) \<Rightarrow> string \<Rightarrow> string option \<Rightarrow> json" where
  "load_checkpoint_3 json_load QUERY_HASH file =
     (case file of
        None \<Rightarrow> JObj (DEFAULT_CKPT QUERY_HASH)
      | Some content \<Rightarrow>
          (case json_load content of
             None \<Rightarrow> JObj (DEFAULT_CKPT QUERY_HASH)
           | Some data \<Rightarrow>
               (case data of
                  JObj d \<Rightarrow>
                    if map_of d ''query_hash'' \<noteq> Some (JStr QUERY_HASH)
                    then JObj (DEFAULT_CKPT QUERY_HASH)
                    else data
                | _ \<Rightarrow> JObj (DEFAULT_CKPT QUERY_HASH))))"

section \<open>The query-aware script \<^verbatim>\<open>1k.tweet_3.py\<close>\<close>

record state_3 = loop_state +
  failures :: int
  ckpt :: "(string \<times> json) list"

text \<open>\<open>save_checkpoint(data)\<close> of this script stamps the query hash and dumps the dict.\<close>

definition save_checkpoint_3 :: "string \<Rightarrow> state_3 \<Rightarrow> state_3" where
  "save_checkpoint_3 QUERY_HASH s =
     (let data = dict_update ''query_hash'' (JStr QUERY_HASH) (ckpt s)
      in log [SaveCheckpoint data] (s\<lparr>ckpt := data\<rparr>))"

text \<open>One iteration of the \<open>while\<close> loop of \<open>run\<close>.  Nothing catches an exception that
  leaves \<open>safe_search\<close>.\<close>

definition loop_body_3 :: "string \<Rightarrow> string \<Rightarrow> state_3 \<Rightarrow> response list
    \<Rightarrow> exit option \<times> state_3 \<times> response list" where
  "loop_body_3 QUERY QUERY_HASH s rs =
     (case safe_search QUERY ''Latest'' BATCH_SIZE (cursor s) rs of
        (Pending, es, rest) \<Rightarrow> (Some Interrupted, log es s, rest)
      | (Raised, es, rest) \<Rightarrow> (Some Crashed, log es s, rest)
      | (Returned result, es, rest) \<Rightarrow>
          (let s1 = log es s;
               s2 = (case result of
                       None \<Rightarrow> s1\<lparr>cursor := None, failures := failures s1 + 1\<rparr>
                     | Some (pg, now) \<Rightarrow>
                         if tweets pg = [] then s1\<lparr>cursor := None, failures := failures s1 + 1\<rparr>
                         else
                           (let (added, sa) = save_tweets_batch (tweets pg) s1;
                                sb = sa\<lparr>collected := collected sa + added, failures := 0,
                                        ckpt := dict_update ''last_success_time'' (JStr now) (ckpt sa)\<rparr>;
                                sc = log [Advance] sb
                            in (case next_page pg of
                                  NextRaises \<Rightarrow> sc\<lparr>cursor := None\<rparr>
                                | NextResult nts c \<Rightarrow> sc\<lparr>cursor := c\<rparr>)));
               s3 = s2\<lparr>ckpt := dict_update ''cursor'' (json_of_cursor (cursor s2))
                                (dict_update ''count'' (JNum (collected s2)) (ckpt s2))\<rparr>;
               s4 = save_checkpoint_3 QUERY_HASH s3;
               s5 = log [if failures s4 = 0 then SleepRandint 30 90 1 else SleepRandint 120 300 1] s4
           in (None, s5, rest)))"

lemma loop_body_3_shorter:
  "fst (loop_body_3 Q qh s rs) = None \<Longrightarrow> length (snd (snd (loop_body_3 Q qh s rs))) < length rs"
  using safe_search_shorter [of Q "''Latest''" BATCH_SIZE "cursor s" rs]
  by (auto simp: loop_body_3_def Let_def split: prod.splits fetched.splits)

text \<open>The \<open>while\<close> loop of \<open>run\<close>.\<close>

function run_loop_3 :: "string \<Rightarrow> string \<Rightarrow> state_3 \<Rightarrow> response list \<Rightarrow> exit \<times> state_3" where
  "run_loop_3 QUERY QUERY_HASH s rs =
     (if collected s < MAX_TWEETS \<and> failures s < 20 then
        (let b = loop_body_3 QUERY QUERY_HASH s rs in
         if fst b = None then run_loop_3 QUERY QUERY_HASH (fst (snd b)) (snd (snd b))
         else (the (fst b), fst (snd b)))
      else (Done, s))"
  by pat_completeness auto
termination
  by (relation "measure (\<lambda>(Q, qh, s, rs). length rs)") (auto simp: loop_body_3_shorter case_prod_beta)

declare run_loop_3.simps [simp del]

text \<open>
  \<open>run\<close>: the count and the cursor come from the loaded checkpoint dict (the arguments
  \<open>count\<close>, \<open>cur\<close> and \<open>ck\<close>), the known ids from the existing CSV file; the file is opened
  for appending and gets the header row when it is missing or has size zero.
\<close>

definition init_3 :: "int \<Rightarrow> cursor \<Rightarrow> (string \<times> json) list \<Rightarrow> csv_file \<Rightarrow> state_3" where
  "init_3 count cur ck f =
     (let ids = init_existing_ids f;
          new_file = (f = None \<or> f = Some []);
          s = \<lparr>collected = count, cursor = cur, existing_ids = ids,
               sink = (case f of None \<Rightarrow> [] | Some rows \<Rightarrow> rows), events = [],
               failures = 0, ckpt = ck\<rparr>
      in if new_file then writerow HEADER s else s)"

definition run_3 :: "string \<Rightarrow> string \<Rightarrow> int \<Rightarrow> cursor \<Rightarrow> (string \<times> json) list \<Rightarrow> csv_file
    \<Rightarrow> response list \<Rightarrow> exit \<times> state_3" where
  "run_3 QUERY QUERY_HASH count cur ck f rs = run_loop_3 QUERY QUERY_HASH (init_3 count cur ck f) rs"

subsection \<open>The output file over a history of runs\<close>

text \<open>
  The data rows of an output file are the rows after the header row; their first cells
  are the recorded ids.  A file the script has written to is well formed when it has a
  first row, no blank data row and no id twice; the in-memory index agrees with the file
  when it holds exactly the recorded ids.
\<close>

definition data_ids :: "row list \<Rightarrow> string list" where
  "data_ids rows = map hd (tl rows)"

definition sink_ok :: "row list \<Rightarrow> bool" where
  "sink_ok rows = (rows \<noteq> [] \<and> [] \<notin> set (tl rows) \<and> distinct (data_ids rows))"

definition index_ok :: "'a loop_state_scheme \<Rightarrow> bool" where
  "index_ok s = (sink_ok (sink s) \<and> existing_ids s = set (data_ids (sink s)))"

text \<open>A history of runs over one output file.\<close>

record run_args =
  ra_count :: int
  ra_cursor :: cursor
  ra_ckpt :: "(string \<times> json) list"
  ra_responses :: "response list"

fun restarts_3 :: "string \<Rightarrow> string \<Rightarrow> run_args list \<Rightarrow> csv_file \<Rightarrow> csv_file" where
  "restarts_3 Q qh [] f = f"
| "restarts_3 Q qh (a # as) f =
     restarts_3 Q qh as
       (Some (sink (snd (run_3 Q qh (ra_count a) (ra_cursor a) (ra_ckpt a) f (ra_responses a)))))"

section \<open>The spec's words, for stating the claims\<close>

text \<open>
  The delay the spec gives after a rate-limited response that carries a reset time:
  \<open>max(resetAt - now, 0)\<close> plus a fixed safety margin.
\<close>

definition rate_limit_delay_spec :: "real \<Rightarrow> real \<Rightarrow> real \<Rightarrow> real" where
  "rate_limit_delay_spec margin resetAt now = max (resetAt - now) 0 + margin"

text \<open>The number of net-new items of a page: its ids that the index does not hold.\<close>

definition new_items :: "'a loop_state_scheme \<Rightarrow> page \<Rightarrow> nat" where
  "new_items s pg = card (tweet_id ` set (tweets pg) - existing_ids s)"

text \<open>
  The continuation of a page: its own token when usable, else the token of the page that
  its advance method returns when that is usable, else none.
\<close>

definition continuation :: "page \<Rightarrow> cursor" where
  "continuation pg =
     (if truthy (next_cursor pg) then next_cursor pg
      else (case next_page pg of
              NextRaises \<Rightarrow> None
            | NextResult nts c \<Rightarrow> if truthy c then c else None))"

section \<open>The first script \<^verbatim>\<open>1k.tweet.py\<close>\<close>

record state_1k = loop_state +
  product_1k :: string

fun index_of :: "'a \<Rightarrow> 'a list \<Rightarrow> nat" where
  "index_of x [] = 0"
| "index_of x (y # ys) = (if y = x then 0 else Suc (index_of x ys))"

text \<open>The rotation of the search product, written three times in the loop:
  \<open>products.index(product) if product in products else 0\<close>, plus one, modulo the length.\<close>

definition next_product :: "string \<Rightarrow> string" where
  "next_product p =
     (let products = [''Top'', ''Latest'', ''Media''];
          current_index = (if p \<in> set products then index_of p products else 0);
          next_index = (current_index + 1) mod length products
      in products ! next_index)"

definition save_checkpoint_1k :: "state_1k \<Rightarrow> state_1k" where
  "save_checkpoint_1k s =
     log [SaveCheckpoint [(''count'', JNum (collected s)), (''cursor'', json_of_cursor (cursor s)),
                          (''product'', JStr (product_1k s))]] s"

definition switch_product :: "state_1k \<Rightarrow> state_1k" where
  "switch_product s = s\<lparr>cursor := None, product_1k := next_product (product_1k s)\<rparr>"

text \<open>One iteration of the main collection loop.  The two early branches (\<open>not result\<close>,
  \<open>not tweets\<close>) do the same: switch the product, save the checkpoint, \<open>continue\<close>.
  Nothing catches an exception that leaves \<open>safe_search\<close>.\<close>

definition loop_body_1k :: "string \<Rightarrow> state_1k \<Rightarrow> response list
    \<Rightarrow> exit option \<times> state_1k \<times> response list" where
  "loop_body_1k QUERY s rs =
     (case safe_search QUERY (product_1k s) BATCH_SIZE (cursor s) rs of
        (Pending, es, rest) \<Rightarrow> (Some Interrupted, log es s, rest)
      | (Raised, es, rest) \<Rightarrow> (Some Crashed, log es s, rest)
      | (Returned result, es, rest) \<Rightarrow>
          (let s1 = log es s in
           case result of
             None \<Rightarrow> (None, save_checkpoint_1k (switch_product s1), rest)
           | Some (pg, now) \<Rightarrow>
               if tweets pg = [] then (None, save_checkpoint_1k (switch_product s1), rest)
               else
                 (let (new_count, sa) = save_tweets_batch (tweets pg) s1;
                      sb = sa\<lparr>collected := collected sa + new_count\<rparr>;
                      sc = (if truthy (next_cursor pg) then sb\<lparr>cursor := next_cursor pg\<rparr>
                            else
                              (case next_page pg of
                                 NextRaises \<Rightarrow> (log [Advance] sb)\<lparr>cursor := None\<rparr>
                               | NextResult nts c \<Rightarrow>
                                   if truthy c then (log [Advance] sb)\<lparr>cursor := c\<rparr>
                                   else switch_product (log [Advance] sb)));
                      sd = save_checkpoint_1k sc;
                      se = log [Sleep 10] sd
                  in (None, se, rest))))"

lemma loop_body_1k_shorter:
  "fst (loop_body_1k Q s rs) = None \<Longrightarrow> length (snd (snd (loop_body_1k Q s rs))) < length rs"
  using safe_search_shorter [of Q "product_1k s" BATCH_SIZE "cursor s" rs]
  by (auto simp: loop_body_1k_def Let_def split: prod.splits fetched.splits option.splits)

function run_loop_1k :: "string \<Rightarrow> state_1k \<Rightarrow> response list \<Rightarrow> exit \<times> state_1k" where
  "run_loop_1k QUERY s rs =
     (if collected s < MAX_TWEETS then
        (let b = loop_body_1k QUERY s rs in
         if fst b = None then run_loop_1k QUERY (fst (snd b)) (snd (snd b))
         else (the (fst b), fst (snd b)))
      else (Done, s))"
  by pat_completeness auto
termination
  by (relation "measure (\<lambda>(Q, s, rs). length rs)") (auto simp: loop_body_1k_shorter case_prod_beta)

declare run_loop_1k.simps [simp del]

text \<open>
  \<open>run_all_operations\<close>: the count, cursor and product come from the loaded checkpoint;
  the known ids are read from the existing file (the same code as \<open>init_existing_ids\<close>,
  written inline); the file is opened for appending, and the header row is written when
  the checkpoint's count is zero.
\<close>

definition init_1k :: "int \<Rightarrow> cursor \<Rightarrow> string \<Rightarrow> csv_file \<Rightarrow> state_1k" where
  "init_1k count cur product f =
     (let s = \<lparr>collected = count, cursor = cur, existing_ids = init_existing_ids f,
               sink = (case f of None \<Rightarrow> [] | Some rows \<Rightarrow> rows), events = [],
               product_1k = product\<rparr>
      in if collected s = 0 then writerow HEADER s else s)"

definition run_all_operations_1k :: "string \<Rightarrow> int \<Rightarrow> cursor \<Rightarrow> string \<Rightarrow> csv_file
    \<Rightarrow> response list \<Rightarrow> exit \<times> state_1k" where
  "run_all_operations_1k QUERY count cur product f rs = run_loop_1k QUERY (init_1k count cur product f) rs"

section \<open>The strategy-rotating script \<^verbatim>\<open>1k.tweet_2.py\<close>\<close>

text \<open>Python's \<open>xs[i]\<close> for an integer \<open>i\<close>: an index from \<open>-len(xs)\<close> to \<open>-1\<close> counts
  from the end, and an index outside \<open>-len(xs) .. len(xs) - 1\<close> raises \<open>IndexError\<close>
  (\<open>None\<close> here).\<close>

definition py_nth :: "'a list \<Rightarrow> int \<Rightarrow> 'a option" where
  "py_nth xs i =
     (if 0 \<le> i \<and> i < int (length xs) then Some (xs ! nat i)
      else if - int (length xs) \<le> i \<and> i < 0 then Some (xs ! nat (int (length xs) + i))
      else None)"

text \<open>Python's \<open>s.replace(old, new)\<close> for a non-empty \<open>old\<close>: every occurrence, left to
  right, not overlapping.\<close>

function str_replace :: "string \<Rightarrow> string \<Rightarrow> string \<Rightarrow> string" where
  "str_replace s old new =
     (if s = [] \<or> old = [] then s
      else if take (length old) s = old then new @ str_replace (drop (length old) s) old new
      else hd s # str_replace (tl s) old new)"
  by pat_completeness auto
termination
  by (relation "measure (\<lambda>(s, old, new). length s)") auto

declare str_replace.simps [simp del]

definition SEARCH_STRATEGIES :: "(string \<times> int) list" where
  "SEARCH_STRATEGIES = [(''Latest'', BATCH_SIZE), (''Top'', BATCH_SIZE)]"

text \<open>
  \<open>generate_query_variations(base_query, variation_index)\<close>.  The three literals of the
  script that are not ASCII (the two spellings of the keyword, and their disjunction) are
  the arguments \<open>kw_or\<close>, \<open>kw_a\<close> and \<open>kw_b\<close>; the three dates, formatted from today's date
  30, 60 and 90 days back, are \<open>d30\<close>, \<open>d60\<close> and \<open>d90\<close>.
\<close>

record literals =
  kw_or :: string
  kw_a :: string
  kw_b :: string
  d30 :: string
  d60 :: string
  d90 :: string

definition variations :: "literals \<Rightarrow> string \<Rightarrow> string list" where
  "variations l base_query =
     [base_query,
      str_replace base_query ''(to:thmanyahCompany)'' [],
      str_replace base_query (kw_or l) (kw_a l),
      str_replace base_query (kw_or l) (kw_b l),
      str_replace base_query ''lang:ar'' []]
     @ [base_query @ '' since:'' @ d30 l,
        base_query @ '' since:'' @ d60 l,
        base_query @ '' since:'' @ d90 l]"

definition generate_query_variations :: "literals \<Rightarrow> string \<Rightarrow> int \<Rightarrow> string" where
  "generate_query_variations l base_query variation_index =
     (let vs = variations l base_query
      in vs ! nat (variation_index mod int (length vs)))"

record state_2 = loop_state +
  strategy_index :: int
  last_successful_strategy :: int
  consecutive_failures :: int
  last_success_time :: "string option"
  query_variations :: int

definition save_checkpoint_2 :: "state_2 \<Rightarrow> state_2" where
  "save_checkpoint_2 s =
     log [SaveCheckpoint
            [(''count'', JNum (collected s)),
             (''cursor'', json_of_cursor (cursor s)),
             (''strategy_index'', JNum (strategy_index s)),
             (''last_successful_strategy'', JNum (last_successful_strategy s)),
             (''consecutive_failures'', JNum (consecutive_failures s)),
             (''last_success_time'', json_of_stamp (last_success_time s)),
             (''query_variations'', JNum (query_variations s))]] s"

text \<open>What the \<open>except\<close> branch and the branch for no new tweets both do.\<close>

definition try_different :: "state_2 \<Rightarrow> state_2" where
  "try_different s =
     s\<lparr>cursor := None,
       strategy_index := (strategy_index s + 1) mod int (length SEARCH_STRATEGIES),
       consecutive_failures := consecutive_failures s + 1,
       query_variations := (query_variations s + 1) mod 8\<rparr>"

text \<open>What the two branches without a next cursor do, after the call of \<open>next()\<close>.\<close>

definition next_strategy :: "state_2 \<Rightarrow> state_2" where
  "next_strategy s =
     s\<lparr>cursor := None,
       strategy_index := (strategy_index s + 1) mod int (length SEARCH_STRATEGIES)\<rparr>"

text \<open>
  One iteration of the main collection loop.  \<open>SEARCH_STRATEGIES[strategy_index]\<close> is read
  before the \<open>try\<close>, so an index out of range ends the run.  The search and the recording
  are inside the \<open>try\<close>: its \<open>except Exception\<close> takes the two exceptions the body raises
  itself (no result, no tweets) and an exception that leaves \<open>safe_search\<close>.
\<close>

definition loop_body_2 :: "literals \<Rightarrow> string \<Rightarrow> state_2 \<Rightarrow> response list
    \<Rightarrow> exit option \<times> state_2 \<times> response list" where
  "loop_body_2 l QUERY s rs =
     (let current_query = generate_query_variations l QUERY (query_variations s) in
      case py_nth SEARCH_STRATEGIES (strategy_index s) of
        None \<Rightarrow> (Some Crashed, s, rs)
      | Some (product, count) \<Rightarrow>
          (case safe_search current_query product count (cursor s) rs of
             (Pending, es, rest) \<Rightarrow> (Some Interrupted, log es s, rest)
           | (outcome, es, rest) \<Rightarrow>
               (let s1 = log es s;
                    s2 = (case outcome of
                            Raised \<Rightarrow> try_different s1
                          | Returned None \<Rightarrow> try_different s1
                          | Returned (Some (pg, now)) \<Rightarrow>
                              if tweets pg = [] then try_different s1
                              else
                                (let (new_count, sa) = save_tweets_batch (tweets pg) s1 in
                                 if new_count > 0 then
                                   (let sb = sa\<lparr>collected := collected sa + new_count,
                                                consecutive_failures := 0,
                                                last_successful_strategy := strategy_index sa,
                                                last_success_time := Some now,
                                                query_variations := 0\<rparr>
                                    in if truthy (next_cursor pg) then sb\<lparr>cursor := next_cursor pg\<rparr>
                                       else
                                         (case next_page pg of
                                            NextRaises \<Rightarrow> next_strategy (log [Advance] sb)
                                          | NextResult nts c \<Rightarrow>
                                              if truthy c then (log [Advance] sb)\<lparr>cursor := c\<rparr>
                                              else next_strategy (log [Advance] sb)))
                                 else try_different sa));
                    s3 = save_checkpoint_2 s2;
                    s4 = log [if consecutive_failures s3 > 0 then SleepRandint 120 300 1
                              else SleepRandint 30 90 1] s3
                in (None, s4, rest))))"

lemma loop_body_2_shorter:
  assumes "fst (loop_body_2 l Q s rs) = None"
  shows "length (snd (snd (loop_body_2 l Q s rs))) < length rs"
proof (cases "py_nth SEARCH_STRATEGIES (strategy_index s)")
  case None
  then show ?thesis using assms by (simp add: loop_body_2_def)
next
  case (Some a)
  obtain product count where a: "a = (product, count)" by (cases a)
  show ?thesis
    using assms Some a
      safe_search_shorter [of "generate_query_variations l Q (query_variations s)" product count "cursor s" rs]
    by (auto simp: loop_body_2_def Let_def split: prod.splits fetched.splits)
qed

function run_loop_2 :: "literals \<Rightarrow> string \<Rightarrow> state_2 \<Rightarrow> response list \<Rightarrow> exit \<times> state_2" where
  "run_loop_2 l QUERY s rs =
     (if collected s < MAX_TWEETS \<and> consecutive_failures s < 20 then
        (let b = loop_body_2 l QUERY s rs in
         if fst b = None then run_loop_2 l QUERY (fst (snd b)) (snd (snd b))
         else (the (fst b), fst (snd b)))
      else (Done, s))"
  by pat_completeness auto
termination
  by (relation "measure (\<lambda>(l, Q, s, rs). length rs)") (auto simp: loop_body_2_shorter case_prod_beta)

declare run_loop_2.simps [simp del]

section \<open>The multi-account script \<^verbatim>\<open>Dynamic_scrapping_X.py\<close>\<close>

definition MAX_RETRIES :: nat where "MAX_RETRIES = 3"
definition RETRY_DELAYS :: "real list" where "RETRY_DELAYS = [5, 15, 30]"
definition MAX_FAILURES_X :: int where "MAX_FAILURES_X = 10"

text \<open>
  \<open>safe_search_with_retry\<close>: the \<open>for attempt in range(MAX_RETRIES)\<close> loop, from the attempt
  given.  It reads \<open>getattr(e, 'rate_limit_reset', None)\<close>.  A \<open>TooManyRequests\<close> whose reset
  time is true (a time, and not zero) sleeps until the reset plus five seconds, and the
  \<open>continue\<close> goes to the next attempt; one without (no attribute, \<open>None\<close>, or zero) sleeps \<open>rate_limit_delay attempt\<close>, which is \<open>RETRY_DELAYS[attempt]\<close> in this script
  and \<open>RETRY_DELAYS[min(attempt, len(RETRY_DELAYS)-1)]\<close> in the per-day script.  Any other
  exception sleeps \<open>RETRY_DELAYS[attempt]\<close> unless the attempt is the last.  When the
  attempts are used up the function returns \<open>None\<close>.
\<close>

fun safe_search_with_retry :: "(nat \<Rightarrow> real) \<Rightarrow> string \<Rightarrow> string \<Rightarrow> int \<Rightarrow> cursor \<Rightarrow> nat
    \<Rightarrow> response list \<Rightarrow> fetched \<times> event list \<times> response list" where
  "safe_search_with_retry rate_limit_delay q p n c attempt [] =
     (if attempt < MAX_RETRIES then (Pending, [Search q p n c], []) else (Returned None, [], []))"
| "safe_search_with_retry rate_limit_delay q p n c attempt (r # rs) =
     (if attempt < MAX_RETRIES then
        (case r of
           Result pg now \<Rightarrow> (Returned (Some (pg, now)), [Search q p n c], rs)
         | TooManyRequests reset_time now \<Rightarrow>
             (let wait_time =
                    (case reset_time of
                       NoAttribute \<Rightarrow> rate_limit_delay attempt
                     | AttributeNone \<Rightarrow> rate_limit_delay attempt
                     | ResetAt t \<Rightarrow> if t \<noteq> 0 then max (t - now) 0 + 5 else rate_limit_delay attempt);
                  rec = safe_search_with_retry rate_limit_delay q p n c (attempt + 1) rs
              in (fst rec, Search q p n c # Sleep wait_time # fst (snd rec), snd (snd rec)))
         | SearchError \<Rightarrow>
             (let sleeps = (if attempt < MAX_RETRIES - 1 then [Sleep (RETRY_DELAYS ! attempt)] else []);
                  rec = safe_search_with_retry rate_limit_delay q p n c (attempt + 1) rs
              in (fst rec, Search q p n c # sleeps @ fst (snd rec), snd (snd rec))))
      else (Returned None, [], r # rs))"

definition rate_limit_delay_X :: "nat \<Rightarrow> real" where
  "rate_limit_delay_X attempt = RETRY_DELAYS ! attempt"

definition rate_limit_delay_D :: "nat \<Rightarrow> real" where
  "rate_limit_delay_D attempt = RETRY_DELAYS ! min attempt (length RETRY_DELAYS - 1)"

text \<open>The command-line arguments the loop reads.\<close>

record args_X =
  QUERY_X :: string
  PRODUCT_X :: string
  MAX_TWEETS_X :: int

record state_X = state_3 +
  last_success :: "string option"

definition save_checkpoint_X :: "'a state_X_scheme \<Rightarrow> 'a state_X_scheme" where
  "save_checkpoint_X s = log [SaveCheckpoint (ckpt s)] s"

text \<open>\<open>ckpt.update({'count': collected, 'cursor': cursor, 'last_success': last_success})\<close>\<close>

definition update_checkpoint_dict :: "'a state_X_scheme \<Rightarrow> 'a state_X_scheme" where
  "update_checkpoint_dict s =
     s\<lparr>ckpt := dict_update ''last_success'' (json_of_stamp (last_success s))
                (dict_update ''cursor'' (json_of_cursor (cursor s))
                  (dict_update ''count'' (JNum (collected s)) (ckpt s)))\<rparr>"

text \<open>One iteration of the \<open>while\<close> loop of \<open>run\<close>.  (No exception leaves
  \<open>safe_search_with_retry\<close>; the branch for one is never taken.)\<close>

definition loop_body_X :: "args_X \<Rightarrow> state_X \<Rightarrow> response list
    \<Rightarrow> exit option \<times> state_X \<times> response list" where
  "loop_body_X a s rs =
     (case safe_search_with_retry rate_limit_delay_X (QUERY_X a) (PRODUCT_X a) BATCH_SIZE (cursor s) 0 rs of
        (Pending, es, rest) \<Rightarrow> (Some Interrupted, log es s, rest)
      | (Raised, es, rest) \<Rightarrow> (Some Crashed, log es s, rest)
      | (Returned result, es, rest) \<Rightarrow>
          (let s1 = log es s;
               s2 = (case result of
                       None \<Rightarrow> s1\<lparr>cursor := None, failures := failures s1 + 1\<rparr>
                     | Some (pg, now) \<Rightarrow>
                         if tweets pg = [] then s1\<lparr>cursor := None, failures := failures s1 + 1\<rparr>
                         else
                           (let (added, sa) = save_tweets_batch (tweets pg) s1;
                                sb = sa\<lparr>collected := collected sa + added, failures := 0,
                                        last_success := Some now\<rparr>;
                                sc = log [Flush] sb
                            in if truthy (next_cursor pg) then sc\<lparr>cursor := next_cursor pg\<rparr>
                               else
                                 (case next_page pg of
                                    NextRaises \<Rightarrow> (log [Advance] sc)\<lparr>cursor := None\<rparr>
                                  | NextResult nts c \<Rightarrow>
                                      if truthy c then (log [Advance] sc)\<lparr>cursor := c\<rparr>
                                      else (log [Advance] sc)\<lparr>cursor := None\<rparr>)));
               s3 = save_checkpoint_X (update_checkpoint_dict s2);
               s4 = log [if failures s3 = 0 then SleepRandint 5 15 1
                         else SleepRandint 30 60 (failures s3)] s3
           in (None, s4, rest)))"

lemma safe_search_with_retry_shorter:
  "attempt < MAX_RETRIES \<Longrightarrow> fst (safe_search_with_retry d q p n c attempt rs) \<noteq> Pending
    \<Longrightarrow> length (snd (snd (safe_search_with_retry d q p n c attempt rs))) < length rs"
proof (induction rs arbitrary: attempt)
  case Nil
  then show ?case by simp
next
  case (Cons r rs)
  show ?case
  proof (cases "attempt + 1 < MAX_RETRIES")
    case True
    then show ?thesis
      using Cons.prems Cons.IH [of "attempt + 1"]
      by (cases r) (auto simp: Let_def less_SucI)
  next
    case False
    then have "snd (snd (safe_search_with_retry d q p n c (attempt + 1) rs)) = rs"
      by (cases rs) simp_all
    then show ?thesis
      using Cons.prems by (cases r) (auto simp: Let_def)
  qed
qed

lemma loop_body_X_shorter:
  "fst (loop_body_X a s rs) = None \<Longrightarrow> length (snd (snd (loop_body_X a s rs))) < length rs"
  using safe_search_with_retry_shorter [of 0 rate_limit_delay_X "QUERY_X a" "PRODUCT_X a" BATCH_SIZE "cursor s" rs]
  by (auto simp: loop_body_X_def Let_def MAX_RETRIES_def split: prod.splits fetched.splits)

function run_loop_X :: "args_X \<Rightarrow> state_X \<Rightarrow> response list \<Rightarrow> exit \<times> state_X" where
  "run_loop_X a s rs =
     (if collected s < MAX_TWEETS_X a \<and> failures s < MAX_FAILURES_X then
        (let b = loop_body_X a s rs in
         if fst b = None then run_loop_X a (fst (snd b)) (snd (snd b))
         else (the (fst b), fst (snd b)))
      else (Done, s))"
  by pat_completeness auto
termination
  by (relation "measure (\<lambda>(a, s, rs). length rs)") (auto simp: loop_body_X_shorter case_prod_beta)

declare run_loop_X.simps [simp del]

text \<open>\<open>run\<close>: as in \<^verbatim>\<open>1k.tweet_3.py\<close>, the header row goes to a file that is missing or has
  size zero.\<close>

definition init_X :: "int \<Rightarrow> cursor \<Rightarrow> string option \<Rightarrow> (string \<times> json) list \<Rightarrow> csv_file \<Rightarrow> state_X" where
  "init_X count cur ls ck f =
     (let ids = init_existing_ids f;
          new_file = (f = None \<or> f = Some []);
          s = \<lparr>collected = count, cursor = cur, existing_ids = ids,
               sink = (case f of None \<Rightarrow> [] | Some rows \<Rightarrow> rows), events = [],
               failures = 0, ckpt = ck, last_success = ls\<rparr>
      in if new_file then writerow HEADER s else s)"

definition run_X :: "args_X \<Rightarrow> int \<Rightarrow> cursor \<Rightarrow> string option \<Rightarrow> (string \<times> json) list \<Rightarrow> csv_file
    \<Rightarrow> response list \<Rightarrow> exit \<times> state_X" where
  "run_X a count cur ls ck f rs = run_loop_X a (init_X count cur ls ck f) rs"

section \<open>The per-day script \<^verbatim>\<open>Dynamic_scrapping/init.py\<close>\<close>

text \<open>The command-line arguments and the values derived from them: \<open>DAY\<close>, \<open>BASE_QUERY\<close>
  (the query without its \<open>since:\<close> and \<open>until:\<close> clauses) and \<open>DAY_QUERY\<close> (the base query
  with the day's window).\<close>

record args_D =
  DAY :: string
  BASE_QUERY :: string
  DAY_QUERY :: string
  PRODUCT_D :: string
  MAX_TWEETS_D :: int
  BATCH_SIZE_D :: int
  MAX_FAILURES_D :: int

record state_D = state_X +
  no_new_pages :: int
  seen_cursors :: "string option set"

text \<open>\<open>save_checkpoint(data)\<close> of this script stamps the day, the base query and the
  product, and dumps the dict.\<close>

definition save_checkpoint_D :: "args_D \<Rightarrow> state_D \<Rightarrow> state_D" where
  "save_checkpoint_D a s =
     (let data = dict_update ''product'' (JStr (PRODUCT_D a))
                   (dict_update ''query'' (JStr (BASE_QUERY a))
                     (dict_update ''day'' (JStr (DAY a)) (ckpt s)))
      in log [SaveCheckpoint data] (s\<lparr>ckpt := data\<rparr>))"

text \<open>
  The part of an iteration after a page with tweets has been saved: the new cursor is the
  page's own \<open>next_cursor\<close> when that is true, else the \<open>next_cursor\<close> of what \<open>next()\<close>
  returns when that is true, else \<open>None\<close>.  With no new cursor the loop \<open>break\<close>s; with a
  cursor seen before it \<open>break\<close>s as well.  Both \<open>break\<close>s leave the loop before the
  checkpoint is saved.
\<close>

definition new_cursor_D :: "page \<Rightarrow> cursor \<times> event list" where
  "new_cursor_D pg =
     (if truthy (next_cursor pg) then (next_cursor pg, [])
      else
        (case next_page pg of
           NextRaises \<Rightarrow> (None, [Advance])
         | NextResult nts c \<Rightarrow> (if truthy c then c else None, [Advance])))"

text \<open>The end of an iteration that did not \<open>break\<close>: save the checkpoint; stop after three
  pages in a row without a new tweet; else sleep.\<close>

definition finish_iteration_D :: "args_D \<Rightarrow> state_D \<Rightarrow> exit option \<times> state_D" where
  "finish_iteration_D a s =
     (let s1 = save_checkpoint_D a (update_checkpoint_dict s) in
      if no_new_pages s1 \<ge> 3 then (Some NoNewPages, s1)
      else (None, log [if failures s1 = 0 then SleepRandint 5 15 1
                       else SleepRandint 30 60 (failures s1)] s1))"

text \<open>One iteration of the \<open>while\<close> loop of \<open>run\<close>.  A failed search keeps the cursor.\<close>

definition loop_body_D :: "args_D \<Rightarrow> state_D \<Rightarrow> response list
    \<Rightarrow> exit option \<times> state_D \<times> response list" where
  "loop_body_D a s rs =
     (case safe_search_with_retry rate_limit_delay_D (DAY_QUERY a) (PRODUCT_D a) (BATCH_SIZE_D a) (cursor s) 0 rs of
        (Pending, es, rest) \<Rightarrow> (Some Interrupted, log es s, rest)
      | (Raised, es, rest) \<Rightarrow> (Some Crashed, log es s, rest)
      | (Returned result, es, rest) \<Rightarrow>
          (let s1 = log es s in
           case result of
             None \<Rightarrow>
               (let fin = finish_iteration_D a (s1\<lparr>failures := failures s1 + 1\<rparr>)
                in (fst fin, snd fin, rest))
           | Some (pg, now) \<Rightarrow>
               if tweets pg = [] then
                 (let fin = finish_iteration_D a (s1\<lparr>failures := failures s1 + 1\<rparr>)
                  in (fst fin, snd fin, rest))
               else
                 (let (added, sa) = save_tweets_batch (tweets pg) s1;
                      sb = sa\<lparr>collected := collected sa + added, last_success := Some now\<rparr>;
                      sc = log [Flush] sb;
                      sd = sc\<lparr>no_new_pages := (if added = 0 then no_new_pages sc + 1 else 0)\<rparr>;
                      (new_cursor, es') = new_cursor_D pg;
                      se = log es' sd
                  in if truthy new_cursor then
                       (let sf = se\<lparr>cursor := new_cursor\<rparr> in
                        if cursor sf \<in> seen_cursors sf then (Some CursorRepeated, sf, rest)
                        else
                          (let fin = finish_iteration_D a (sf\<lparr>seen_cursors := insert (cursor sf) (seen_cursors sf)\<rparr>)
                           in (fst fin, snd fin, rest)))
                     else (Some NoMorePages, se, rest))))"

lemma loop_body_D_shorter:
  "fst (loop_body_D a s rs) = None \<Longrightarrow> length (snd (snd (loop_body_D a s rs))) < length rs"
  using safe_search_with_retry_shorter [of 0 rate_limit_delay_D "DAY_QUERY a" "PRODUCT_D a" "BATCH_SIZE_D a" "cursor s" rs]
  by (auto simp: loop_body_D_def Let_def MAX_RETRIES_def split: prod.splits fetched.splits option.splits if_splits)

function run_loop_D :: "args_D \<Rightarrow> state_D \<Rightarrow> response list \<Rightarrow> exit \<times> state_D" where
  "run_loop_D a s rs =
     (if collected s < MAX_TWEETS_D a \<and> failures s < MAX_FAILURES_D a then
        (let b = loop_body_D a s rs in
         if fst b = None then run_loop_D a (fst (snd b)) (snd (snd b))
         else (the (fst b), fst (snd b)))
      else (Done, s))"
  by pat_completeness auto
termination
  by (relation "measure (\<lambda>(a, s, rs). length rs)") (auto simp: loop_body_D_shorter case_prod_beta)

declare run_loop_D.simps [simp del]

text \<open>\<open>run\<close>: the count, cursor and last success come from the loaded checkpoint; the header
  row goes to a file that is missing or has size zero; the failure count, the count of
  pages without a new tweet and the set of seen cursors start empty.\<close>

definition init_D :: "int \<Rightarrow> cursor \<Rightarrow> string option \<Rightarrow> (string \<times> json) list \<Rightarrow> csv_file \<Rightarrow> state_D" where
  "init_D count cur ls ck f =
     (let ids = init_existing_ids f;
          new_file = (f = None \<or> f = Some []);
          s = \<lparr>collected = count, cursor = cur, existing_ids = ids,
               sink = (case f of None \<Rightarrow> [] | Some rows \<Rightarrow> rows), events = [],
               failures = 0, ckpt = ck, last_success = ls,
               no_new_pages = 0, seen_cursors = {}\<rparr>
      in if new_file then writerow HEADER s else s)"

definition run_D :: "args_D \<Rightarrow> int \<Rightarrow> cursor \<Rightarrow> string option \<Rightarrow> (string \<times> json) list \<Rightarrow> csv_file
    \<Rightarrow> response list \<Rightarrow> exit \<times> state_D" where
  "run_D a count cur ls ck f rs = run_loop_D a (init_D count cur ls ck f) rs"

text \<open>The checkpoint file after a run: the last dict dumped, or the file as it was.\<close>

fun persisted :: "(string \<times> json) list option \<Rightarrow> event list \<Rightarrow> (string \<times> json) list option" where
  "persisted before [] = before"
| "persisted before (SaveCheckpoint d # es) = persisted (Some d) es"
| "persisted before (e # es) = persisted before es"

section \<open>The deduplication invariant\<close>

lemma hd_row_of [simp]: "hd (row_of tw) = tweet_id tw"
  and row_of_nonempty [simp]: "row_of tw \<noteq> []" "[] \<noteq> row_of tw"
  by (simp_all add: row_of_def)

lemma map_hd_row_of [simp]: "map (hd \<circ> row_of) tws = map tweet_id tws"
  by simp

lemma save_tweets_loop_spec:
  "\<exists>new. save_tweets_loop tws n s =
      (n + int (length new),
       s\<lparr>existing_ids := existing_ids s \<union> set (map tweet_id new),
         sink := sink s @ map row_of new,
         events := events s @ map WriteRow (map row_of new)\<rparr>)
    \<and> distinct (map tweet_id new)
    \<and> set (map tweet_id new) \<inter> existing_ids s = {}
    \<and> set new \<subseteq> set tws
    \<and> tweet_id ` set tws \<subseteq> existing_ids s \<union> set (map tweet_id new)"
proof (induction tws arbitrary: n s)
  case Nil
  show ?case by (rule exI [of _ "[]"]) simp
next
  case (Cons tw tws)
  show ?case
  proof (cases "tweet_id tw \<in> existing_ids s")
    case True
    from Cons [of n s] obtain new where
      "save_tweets_loop tws n s =
      (n + int (length new),
       s\<lparr>existing_ids := existing_ids s \<union> set (map tweet_id new),
         sink := sink s @ map row_of new,
         events := events s @ map WriteRow (map row_of new)\<rparr>)
    \<and> distinct (map tweet_id new)
    \<and> set (map tweet_id new) \<inter> existing_ids s = {}
    \<and> set new \<subseteq> set tws
    \<and> tweet_id ` set tws \<subseteq> existing_ids s \<union> set (map tweet_id new)" by blast
    with True show ?thesis by (intro exI [of _ new]) auto
  next
    case False
    let ?s = "(writerow (row_of tw) s)\<lparr>existing_ids := insert (tweet_id tw) (existing_ids s)\<rparr>"
    from Cons [of "n + 1" ?s] obtain new where new:
      "save_tweets_loop tws (n + 1) ?s =
      (n + 1 + int (length new),
       ?s\<lparr>existing_ids := existing_ids ?s \<union> set (map tweet_id new),
         sink := sink ?s @ map row_of new,
         events := events ?s @ map WriteRow (map row_of new)\<rparr>)"
      "distinct (map tweet_id new)"
      "set (map tweet_id new) \<inter> existing_ids ?s = {}"
      "set new \<subseteq> set tws"
      "tweet_id ` set tws \<subseteq> existing_ids ?s \<union> set (map tweet_id new)" by blast
    show ?thesis
      using False new by (intro exI [of _ "tw # new"]) (auto simp: writerow_def)
  qed
qed

lemma save_tweets_batch_index_ok:
  assumes "index_ok s"
  shows "index_ok (snd (save_tweets_batch tws s))"
proof -
  from save_tweets_loop_spec [of tws 0 s] obtain new where new:
    "save_tweets_loop tws 0 s =
      (0 + int (length new),
       s\<lparr>existing_ids := existing_ids s \<union> set (map tweet_id new),
         sink := sink s @ map row_of new,
         events := events s @ map WriteRow (map row_of new)\<rparr>)"
    "distinct (map tweet_id new)"
    "set (map tweet_id new) \<inter> existing_ids s = {}" by blast
  have ids: "data_ids (sink s @ map row_of new) = data_ids (sink s) @ map tweet_id new"
    using assms by (simp add: index_ok_def sink_ok_def data_ids_def comp_def)
  show ?thesis
    using assms new ids
    by (auto simp: save_tweets_batch_def index_ok_def sink_ok_def data_ids_def)
qed

lemma index_ok_updates [simp]:
  "index_ok (s\<lparr>events := es\<rparr>) = index_ok s"
  "index_ok (s\<lparr>cursor := c\<rparr>) = index_ok s"
  "index_ok (s\<lparr>collected := n\<rparr>) = index_ok s"
  "index_ok (log evs s) = index_ok s"
  by (simp_all add: index_ok_def log_def)

lemma index_ok_updates_3 [simp]:
  "index_ok (t\<lparr>failures := k\<rparr>) = index_ok t"
  "index_ok (t\<lparr>ckpt := d\<rparr>) = index_ok t"
  "index_ok (save_checkpoint_3 qh t) = index_ok t"
  by (simp_all add: index_ok_def save_checkpoint_3_def log_def Let_def)

lemma loop_body_3_index_ok:
  assumes "index_ok s"
  shows "index_ok (fst (snd (loop_body_3 Q qh s rs)))"
proof -
  have b: "index_ok (snd (save_tweets_batch tws (log es s)))" for tws es
    by (rule save_tweets_batch_index_ok) (simp add: assms)
  have c: "save_tweets_batch tws (log es s) = (k, t) \<Longrightarrow> index_ok t" for tws es k t
    using b [of tws es] by simp
  show ?thesis
    using assms
    by (auto simp: loop_body_3_def Let_def dest: c
        split: prod.splits fetched.splits option.splits next_result.splits)
qed

lemma run_loop_3_index_ok:
  "index_ok s \<Longrightarrow> index_ok (snd (run_loop_3 Q qh s rs))"
proof (induction Q qh s rs rule: run_loop_3.induct)
  case (1 Q qh s rs)
  show ?case
  proof (cases "collected s < MAX_TWEETS \<and> failures s < 20")
    case False
    have "run_loop_3 Q qh s rs = (Done, s)"
      by (subst run_loop_3.simps) (use False in auto)
    then show ?thesis using "1.prems" by simp
  next
    case True
    show ?thesis
    proof (cases "fst (loop_body_3 Q qh s rs) = None")
      case n: True
      have eq: "run_loop_3 Q qh s rs =
          run_loop_3 Q qh (fst (snd (loop_body_3 Q qh s rs))) (snd (snd (loop_body_3 Q qh s rs)))"
        by (subst run_loop_3.simps) (use True n in \<open>simp add: Let_def\<close>)
      show ?thesis
        unfolding eq
        using "1.IH" [OF True refl n] loop_body_3_index_ok [OF "1.prems"] by simp
    next
      case n: False
      have eq: "run_loop_3 Q qh s rs =
          (the (fst (loop_body_3 Q qh s rs)), fst (snd (loop_body_3 Q qh s rs)))"
        by (subst run_loop_3.simps) (use True n in \<open>auto simp: Let_def\<close>)
      show ?thesis
        unfolding eq using loop_body_3_index_ok [OF "1.prems", of Q qh rs] by simp
    qed
  qed
qed

lemma init_3_index_ok:
  assumes "f = None \<or> f = Some [] \<or> (\<exists>rows. f = Some rows \<and> sink_ok rows)"
  shows "index_ok (init_3 count cur ck f)"
  using assms
  by (auto simp: init_3_def index_ok_def sink_ok_def data_ids_def init_existing_ids_def
      writerow_def Let_def filter_id_conv)

lemma init_existing_ids_sink_ok:
  "sink_ok rows \<Longrightarrow> init_existing_ids (Some rows) = set (data_ids rows)"
  by (auto simp: sink_ok_def data_ids_def init_existing_ids_def filter_id_conv)

lemma index_ok_sink: "index_ok s \<Longrightarrow> sink_ok (sink s)"
  by (simp add: index_ok_def)

lemma restarts_3_ok:
  assumes "f = None \<or> f = Some [] \<or> (\<exists>rows. f = Some rows \<and> sink_ok rows)"
  shows "restarts_3 Q qh as f = None \<or> restarts_3 Q qh as f = Some []
     \<or> (\<exists>rows. restarts_3 Q qh as f = Some rows \<and> sink_ok rows)"
  using assms
proof (induction as arbitrary: f)
  case Nil
  then show ?case by simp
next
  case (Cons a as)
  have "index_ok (snd (run_3 Q qh (ra_count a) (ra_cursor a) (ra_ckpt a) f (ra_responses a)))"
    unfolding run_3_def by (rule run_loop_3_index_ok) (rule init_3_index_ok [OF Cons.prems])
  then have "sink_ok (sink (snd (run_3 Q qh (ra_count a) (ra_cursor a) (ra_ckpt a) f (ra_responses a))))"
    by (rule index_ok_sink)
  then show ?case using Cons.IH by simp
qed

text \<open>
  The invariant in \<^verbatim>\<open>1k.tweet_3.py\<close>, whose header row goes to a missing or empty file.
  Take any history of runs of that script over an output file that was missing or empty
  at first, each run started from any checkpoint values and stopped after any number of
  responses, and one more run on top.  At the point where that run is observed, no two
  data rows of the output file have the same id, the index \<open>existing_ids\<close> is exactly the
  set of ids in the first column of the data rows, and rehydrating from the file gives
  this index back; the index rehydrated at the start of the run is the set of ids of the
  file as it then was, and it is empty for a missing and for an empty file.  One call of
  \<open>save_tweets_batch\<close> appends the rows of tweets whose ids were not in the index (each id
  once), and adds exactly their ids to the index.
\<close>

theorem dedup_index_matches_sink:
  assumes "start = None \<or> start = Some []"
  shows "(let f = restarts_3 Q qh history start;
              s = snd (run_3 Q qh count cur ck f rs)
          in distinct (data_ids (sink s))
           \<and> existing_ids s = set (data_ids (sink s))
           \<and> init_existing_ids (Some (sink s)) = existing_ids s
           \<and> init_existing_ids f = (case f of None \<Rightarrow> {} | Some rows \<Rightarrow> set (data_ids rows)))
       \<and> init_existing_ids None = {} \<and> init_existing_ids (Some []) = {}
       \<and> (\<exists>new. save_tweets_batch tws s0 =
              (int (length new),
               s0\<lparr>existing_ids := existing_ids s0 \<union> set (map tweet_id new),
                  sink := sink s0 @ map row_of new,
                  events := events s0 @ map WriteRow (map row_of new)\<rparr>)
            \<and> distinct (map tweet_id new)
            \<and> set (map tweet_id new) \<inter> existing_ids s0 = {}
            \<and> set new \<subseteq> set tws
            \<and> tweet_id ` set tws \<subseteq> existing_ids s0 \<union> set (map tweet_id new))"
proof -
  define f where "f = restarts_3 Q qh history start"
  define s where "s = snd (run_3 Q qh count cur ck f rs)"
  have f: "f = None \<or> f = Some [] \<or> (\<exists>rows. f = Some rows \<and> sink_ok rows)"
    unfolding f_def using assms by (intro restarts_3_ok) auto
  have s: "index_ok s"
    unfolding s_def run_3_def by (rule run_loop_3_index_ok) (rule init_3_index_ok [OF f])
  have 1: "distinct (data_ids (sink s))" and 2: "existing_ids s = set (data_ids (sink s))"
    using s by (simp_all add: index_ok_def sink_ok_def)
  have 3: "init_existing_ids (Some (sink s)) = existing_ids s"
    using s init_existing_ids_sink_ok [of "sink s"] by (simp add: index_ok_def)
  have 4: "init_existing_ids f = (case f of None \<Rightarrow> {} | Some rows \<Rightarrow> set (data_ids rows))"
    using f by (auto simp: init_existing_ids_sink_ok) (simp_all add: init_existing_ids_def data_ids_def)
  have 5: "init_existing_ids None = {} \<and> init_existing_ids (Some []) = {}"
    by (simp add: init_existing_ids_def)
  have 6: "\<exists>new. save_tweets_batch tws s0 =
              (int (length new),
               s0\<lparr>existing_ids := existing_ids s0 \<union> set (map tweet_id new),
                  sink := sink s0 @ map row_of new,
                  events := events s0 @ map WriteRow (map row_of new)\<rparr>)
            \<and> distinct (map tweet_id new)
            \<and> set (map tweet_id new) \<inter> existing_ids s0 = {}
            \<and> set new \<subseteq> set tws
            \<and> tweet_id ` set tws \<subseteq> existing_ids s0 \<union> set (map tweet_id new)"
    using save_tweets_loop_spec [of tws 0 s0] by (simp add: save_tweets_batch_def)
  show ?thesis
    using 1 2 3 4 5 6 unfolding Let_def f_def [symmetric] s_def [symmetric] by blast
qed

theorem dedup_index_matches_sink_witness:
  "(let twA = \<lparr>tweet_id = ''11'', screen_name = ''ann'', tweet_text = ''hi'', created_at = ''d1'',
                retweet_count = 0, favorite_count = 12, reply_count = 3\<rparr>;
        twB = \<lparr>tweet_id = ''12'', screen_name = ''bob'', tweet_text = ''yo'', created_at = ''d2'',
                retweet_count = 1, favorite_count = 0, reply_count = 0\<rparr>;
        twC = \<lparr>tweet_id = ''13'', screen_name = ''cy'', tweet_text = ''ok'', created_at = ''d3'',
                retweet_count = 4, favorite_count = 0, reply_count = 0\<rparr>;
        first_run = \<lparr>ra_count = 0, ra_cursor = None, ra_ckpt = [],
                      ra_responses = [Result \<lparr>tweets = [twA, twB, twA], next_cursor = None,
                                        next_page = NextResult [] (Some ''c2'')\<rparr> ''t1'']\<rparr>;
        f = restarts_3 ''q'' ''h'' [first_run] None;
        s = snd (run_3 ''q'' ''h'' 2 (Some ''c2'') [] f
                   [Result \<lparr>tweets = [twB, twC], next_cursor = None, next_page = NextRaises\<rparr> ''t2''])
    in f = Some [HEADER, row_of twA, row_of twB]
     \<and> sink s = [HEADER, row_of twA, row_of twB, row_of twC]
     \<and> data_ids (sink s) = [''11'', ''12'', ''13'']
     \<and> distinct (data_ids (sink s))
     \<and> existing_ids s = set (data_ids (sink s))
     \<and> init_existing_ids (Some (sink s)) = existing_ids s
     \<and> init_existing_ids f = {''11'', ''12''})"
proof -
  have start: "(None :: csv_file) = None \<or> (None :: csv_file) = Some []"
    by simp
  note general = dedup_index_matches_sink [OF start, of "''q''" "''h''"]
  have concrete: ?thesis
    by code_simp
  show ?thesis
    using general by - (rule concrete)
qed

text \<open>
  Claim C1.  The claim says that no run leaves two data rows with the same id in the
  output file.  \<^verbatim>\<open>1k.tweet.py\<close> writes the header row when the checkpoint's count is
  zero, not when the file is new (the slip of claim C8), and its rehydration skips the
  first row of the file whatever that row is.  Here \<^verbatim>\<open>checkpoint.json\<close> holds the count 5
  (\<^verbatim>\<open>1k.tweet_2.py\<close> writes the same checkpoint file, for another output file) and the
  output file does not exist.  The first run writes no header and records the tweets 11
  and 12, so the row of tweet 11 is the first row of the file.  The next run skips that
  row, rehydrates the index to the one id 12, takes tweet 11 for new and appends its row
  again.
\<close>

theorem run_all_operations_1k_appends_known_id:
  "(let tw11 = \<lparr>tweet_id = ''11'', screen_name = ''ann'', tweet_text = ''hi'', created_at = ''d1'',
                 retweet_count = 0, favorite_count = 12, reply_count = 3\<rparr>;
        tw12 = \<lparr>tweet_id = ''12'', screen_name = ''bob'', tweet_text = ''yo'', created_at = ''d2'',
                 retweet_count = 1, favorite_count = 0, reply_count = 0\<rparr>;
        first_run = run_all_operations_1k ''q'' 5 None ''Latest'' None
                      [Result \<lparr>tweets = [tw11, tw12], next_cursor = Some ''c1'',
                                next_page = NextRaises\<rparr> ''t1''];
        file = Some (sink (snd first_run));
        second_run = run_all_operations_1k ''q'' 7 (Some ''c1'') ''Latest'' file
                       [Result \<lparr>tweets = [tw11], next_cursor = Some ''c2'',
                                 next_page = NextRaises\<rparr> ''t2'']
    in sink (snd first_run) = [row_of tw11, row_of tw12]
     \<and> persisted None (events (snd first_run)) =
         Some [(''count'', JNum 7), (''cursor'', JStr ''c1''), (''product'', JStr ''Latest'')]
     \<and> init_existing_ids file = {''12''}
     \<and> sink (snd second_run) = [row_of tw11, row_of tw12, row_of tw11]
     \<and> map hd (sink (snd second_run)) = [''11'', ''12'', ''11'']
     \<and> \<not> distinct (map hd (sink (snd second_run)))
     \<and> collected (snd second_run) = 8)"
  by code_simp

section \<open>Facts about the writer and the search wrappers\<close>

lemma save_tweets_batch_frame:
  "\<exists>new. set new \<subseteq> set tws \<and> save_tweets_batch tws s =
      (int (card (tweet_id ` set tws - existing_ids s)),
       s\<lparr>existing_ids := existing_ids s \<union> set (map tweet_id new),
         sink := sink s @ map row_of new,
         events := events s @ map WriteRow (map row_of new)\<rparr>)"
proof -
  from save_tweets_loop_spec [of tws 0 s] obtain new where new:
    "save_tweets_loop tws 0 s =
      (0 + int (length new),
       s\<lparr>existing_ids := existing_ids s \<union> set (map tweet_id new),
         sink := sink s @ map row_of new,
         events := events s @ map WriteRow (map row_of new)\<rparr>)"
    "distinct (map tweet_id new)"
    "set (map tweet_id new) \<inter> existing_ids s = {}"
    "set new \<subseteq> set tws"
    "tweet_id ` set tws \<subseteq> existing_ids s \<union> set (map tweet_id new)" by blast
  have "tweet_id ` set tws - existing_ids s = set (map tweet_id new)"
    using new(3-5) by auto
  then have "card (tweet_id ` set tws - existing_ids s) = length new"
    using new(2) by (metis distinct_card length_map)
  then show ?thesis
    using new(1,4) by (auto simp: save_tweets_batch_def)
qed

lemma map_of_dict_update:
  "map_of (dict_update k v d) k' = (if k' = k then Some v else map_of d k')"
  by (induction d) auto

lemma safe_search_starts_with_search:
  "\<exists>evs. fst (snd (safe_search q p n c rs)) = Search q p n c # evs"
proof (cases rs)
  case Nil
  then show ?thesis by simp
next
  case (Cons r rs')
  then show ?thesis by (cases r) (simp_all add: Let_def split: rate_limit_reset.splits)
qed

lemma safe_search_with_retry_starts_with_search:
  "attempt < MAX_RETRIES \<Longrightarrow>
     \<exists>evs. fst (snd (safe_search_with_retry d q p n c attempt rs)) = Search q p n c # evs"
proof (cases rs)
  case Nil
  assume "attempt < MAX_RETRIES"
  with Nil show ?thesis by simp
next
  case (Cons r rs')
  assume "attempt < MAX_RETRIES"
  with Cons show ?thesis by (cases r) (simp_all add: Let_def)
qed

lemma safe_search_with_retry_exhausted:
  "\<not> attempt < MAX_RETRIES \<Longrightarrow> safe_search_with_retry d q p n c attempt rs = (Returned None, [], rs)"
  by (cases rs) simp_all

lemma length_variations: "length (variations l Q) = 8"
  by (simp add: variations_def)

section \<open>The checkpoint and the two \<open>break\<close>s of the per-day script\<close>

text \<open>
  Where the checkpoint is saved.  An iteration of \<^verbatim>\<open>1k.tweet.py\<close> that returns leaves
  the count, cursor and product of the loop in the checkpoint file.  An iteration of the
  per-day script that goes on, or that stops after three pages without a new tweet, leaves
  the count and the cursor of the loop there.
\<close>

lemma persisted_append: "persisted b (es @ es') = persisted (persisted b es) es'"
  by (induction b es rule: persisted.induct) auto

lemma loop_body_1k_checkpoint:
  assumes "fst (loop_body_1k Q s rs) = None"
  shows "(let s' = fst (snd (loop_body_1k Q s rs))
          in persisted b (events s') =
               Some [(''count'', JNum (collected s')), (''cursor'', json_of_cursor (cursor s')),
                     (''product'', JStr (product_1k s'))])"
  using assms
  by (auto simp: loop_body_1k_def Let_def save_checkpoint_1k_def switch_product_def log_def
      persisted_append split: prod.splits fetched.splits option.splits next_result.splits if_splits)

lemma finish_iteration_D_checkpoint:
  "(let s' = snd (finish_iteration_D a s)
    in persisted b (events s') = Some (ckpt s')
     \<and> map_of (ckpt s') ''count'' = Some (JNum (collected s'))
     \<and> map_of (ckpt s') ''cursor'' = Some (json_of_cursor (cursor s')))"
  by (simp add: finish_iteration_D_def Let_def save_checkpoint_D_def update_checkpoint_dict_def
      log_def persisted_append map_of_dict_update)

lemma loop_body_D_checkpoint:
  assumes "fst (loop_body_D a s rs) = None \<or> fst (loop_body_D a s rs) = Some NoNewPages"
  shows "(let s' = fst (snd (loop_body_D a s rs))
          in persisted b (events s') = Some (ckpt s')
           \<and> map_of (ckpt s') ''count'' = Some (JNum (collected s'))
           \<and> map_of (ckpt s') ''cursor'' = Some (json_of_cursor (cursor s')))"
proof -
  have fin: "persisted b (events (snd (finish_iteration_D a t))) = Some (ckpt (snd (finish_iteration_D a t)))
     \<and> map_of (ckpt (snd (finish_iteration_D a t))) ''count'' = Some (JNum (collected (snd (finish_iteration_D a t))))
     \<and> map_of (ckpt (snd (finish_iteration_D a t))) ''cursor'' = Some (json_of_cursor (cursor (snd (finish_iteration_D a t))))" for t
    using finish_iteration_D_checkpoint [of a t b] by (simp add: Let_def)
  obtain f es rest where ss:
    "safe_search_with_retry rate_limit_delay_D (DAY_QUERY a) (PRODUCT_D a) (BATCH_SIZE_D a) (cursor s) 0 rs = (f, es, rest)"
    by (cases "safe_search_with_retry rate_limit_delay_D (DAY_QUERY a) (PRODUCT_D a) (BATCH_SIZE_D a) (cursor s) 0 rs")
  show ?thesis
  proof (cases f)
    case Pending
    then show ?thesis using assms ss by (simp add: loop_body_D_def)
  next
    case Raised
    then show ?thesis using assms ss by (simp add: loop_body_D_def)
  next
    case (Returned result)
    show ?thesis
    proof (cases result)
      case None
      then show ?thesis using ss Returned fin by (simp add: loop_body_D_def Let_def)
    next
      case (Some pn)
      obtain pg now where pn: "pn = (pg, now)" by (cases pn)
      show ?thesis
      proof (cases "tweets pg = []")
        case True
        then show ?thesis using ss Returned Some pn fin by (simp add: loop_body_D_def Let_def)
      next
        case False
        obtain added sa where sv: "save_tweets_batch (tweets pg) (log es s) = (added, sa)"
          by (cases "save_tweets_batch (tweets pg) (log es s)")
        obtain nc es' where nc: "new_cursor_D pg = (nc, es')"
          by (cases "new_cursor_D pg")
        show ?thesis
          using assms ss Returned Some pn False sv nc fin
          by (simp add: loop_body_D_def Let_def split: if_splits)
      qed
    qed
  qed
qed

text \<open>
  Claim C2.  The claim says that no iteration leaves the loop body with a state change
  that the checkpoint does not hold.  In \<^verbatim>\<open>Dynamic_scrapping/init.py\<close> the two \<open>break\<close>s
  after a saved page come before the lines under \<open># Save ckpt each iteration\<close>.  Here a
  first page with one new tweet and no continuation is recorded: the row is written and
  flushed, the count is one, the run ends with \<open>NoMorePages\<close>, and the trace holds no
  \<open>SaveCheckpoint\<close>, so the checkpoint file still says what it said before the run.
\<close>

theorem run_D_break_leaves_checkpoint_stale:
  "(let a = \<lparr>DAY = ''2025-09-01'', BASE_QUERY = ''q'', DAY_QUERY = ''q since:2025-09-01 until:2025-09-02'',
              PRODUCT_D = ''Latest'', MAX_TWEETS_D = 100000, BATCH_SIZE_D = 20, MAX_FAILURES_D = 3\<rparr>;
        ck0 = [(''count'', JNum 0), (''cursor'', JNull), (''last_success'', JNull)];
        tw = \<lparr>tweet_id = ''11'', screen_name = ''ann'', tweet_text = ''hi'', created_at = ''d1'',
               retweet_count = 0, favorite_count = 12, reply_count = 3\<rparr>;
        r = run_D a 0 None None ck0 None
              [Result \<lparr>tweets = [tw], next_cursor = None, next_page = NextRaises\<rparr> ''t1'']
    in fst r = NoMorePages
     \<and> collected (snd r) = 1
     \<and> sink (snd r) = [HEADER, row_of tw]
     \<and> events (snd r) =
         [WriteRow HEADER, Search ''q since:2025-09-01 until:2025-09-02'' ''Latest'' 20 None,
          WriteRow (row_of tw), Flush, Advance]
     \<and> persisted (Some ck0) (events (snd r)) = Some ck0)"
  by code_simp

section \<open>Loading a checkpoint written under another identity\<close>

text \<open>What \<open>load_checkpoint\<close> of \<^verbatim>\<open>1k.tweet_3.py\<close> returns: the parsed dict when the file
  exists, parses to a dict and holds the run's query hash; the default in every other
  case.\<close>

lemma load_checkpoint_3_spec:
  "load_checkpoint_3 json_load QUERY_HASH file =
     (if \<exists>content d. file = Some content \<and> json_load content = Some (JObj d)
           \<and> map_of d ''query_hash'' = Some (JStr QUERY_HASH)
      then the (json_load (the file))
      else JObj (DEFAULT_CKPT QUERY_HASH))"
  by (auto simp: load_checkpoint_3_def split: option.splits json.splits)

text \<open>
  Claim C3.  \<^verbatim>\<open>1k.tweet.py\<close> keeps its progress in \<^verbatim>\<open>checkpoint.json\<close>, whatever the query
  is (\<^verbatim>\<open>1k.tweet_2.py\<close>, with another query, writes the same file).  A checkpoint with
  count 1004 that was saved for another query is loaded as it is: the checkpoint holds no
  identity and \<open>load_checkpoint\<close> compares none.  \<open>load_checkpoint\<close> of
  \<^verbatim>\<open>1k.tweet_3.py\<close>, reading under the query hash \<open>Y\<close> a file saved under \<open>X\<close>, gives
  the default, as the claim says.
\<close>

theorem load_checkpoint_1k_returns_foreign_checkpoint:
  "(let saved = JObj [(''count'', JNum 1004), (''cursor'', JStr ''c''), (''product'', JStr ''Latest'')];
        saved_under_X = JObj [(''query_hash'', JStr ''X''), (''count'', JNum 1004), (''cursor'', JStr ''c''),
                              (''last_success_time'', JNull)];
        json_load = (\<lambda>content. if content = ''for another query'' then Some saved
                                else if content = ''under X'' then Some saved_under_X
                                else None)
    in load_checkpoint_1k json_load (Some ''for another query'') = saved
     \<and> saved \<noteq> default_checkpoint_1k
     \<and> load_checkpoint_3 json_load ''Y'' (Some ''under X'') = JObj (DEFAULT_CKPT ''Y'')
     \<and> load_checkpoint_3 json_load ''X'' (Some ''under X'') = saved_under_X)"
  by (simp add: load_checkpoint_3_def load_checkpoint_1k_def default_checkpoint_1k_def Let_def)

section \<open>Rate limiting and the failure count\<close>

text \<open>
  Claim C4.  In \<^verbatim>\<open>Dynamic_scrapping_X.py\<close> the \<open>continue\<close> after a rate-limit wait goes to
  the next \<open>attempt\<close> of the \<open>for\<close> loop.  Three rate-limited responses in a row, each with
  a reset time, use the three attempts up: the search returns \<open>None\<close> and the iteration
  counts one failure, clears the cursor and sleeps in the slow window.
\<close>

theorem loop_body_X_counts_rate_limits_as_failure:
  "(let a = \<lparr>QUERY_X = ''q'', PRODUCT_X = ''Latest'', MAX_TWEETS_X = 5000\<rparr>;
        ck0 = [(''count'', JNum 40), (''cursor'', JStr ''c9''), (''last_success'', JNull)];
        s = \<lparr>collected = 40, cursor = Some ''c9'', existing_ids = {}, sink = [HEADER], events = [],
              failures = 0, ckpt = ck0, last_success = None\<rparr>;
        b = loop_body_X a s
              [TooManyRequests (ResetAt 1500) 1000, TooManyRequests (ResetAt 2400) 2000,
               TooManyRequests (ResetAt 3300) 3000]
    in fst b = None
     \<and> failures s = 0
     \<and> failures (fst (snd b)) = 1
     \<and> cursor (fst (snd b)) = None
     \<and> events (fst (snd b)) =
         [Search ''q'' ''Latest'' 20 (Some ''c9''), Sleep 505,
          Search ''q'' ''Latest'' 20 (Some ''c9''), Sleep 405,
          Search ''q'' ''Latest'' 20 (Some ''c9''), Sleep 305,
          SaveCheckpoint [(''count'', JNum 40), (''cursor'', JNull), (''last_success'', JNull)],
          SleepRandint 30 60 1])"
  by (simp add: loop_body_X_def Let_def rate_limit_delay_X_def MAX_RETRIES_def BATCH_SIZE_def
      log_def save_checkpoint_X_def update_checkpoint_dict_def json_of_cursor_def json_of_stamp_def)

section \<open>The header row\<close>

text \<open>In \<^verbatim>\<open>1k.tweet_3.py\<close> the header row is written exactly to a missing or empty
  file.\<close>

lemma init_3_header:
  "sink (init_3 count cur ck f) =
     (case f of None \<Rightarrow> [HEADER] | Some rows \<Rightarrow> if rows = [] then [HEADER] else rows)"
  by (simp add: init_3_def Let_def writerow_def split: option.splits)

text \<open>
  Claim C8.  In \<^verbatim>\<open>1k.tweet.py\<close> the line under \<open># Write header if file is new\<close> tests
  the checkpoint's count, not the file.  A first run over a missing file writes the header
  and, its one search failing, saves a checkpoint with count zero; the next run finds the
  file with its header, reads count zero and writes the header again.  And a run whose
  checkpoint has a count above zero writes no header to a missing file.
\<close>

theorem init_1k_writes_second_header:
  "(let first_run = run_all_operations_1k ''q'' 0 None ''Latest'' None [SearchError];
        file = Some (sink (snd first_run));
        second_run = init_1k 0 None ''Media'' file
    in sink (snd first_run) = [HEADER]
     \<and> persisted None (events (snd first_run)) =
         Some [(''count'', JNum 0), (''cursor'', JNull), (''product'', JStr ''Media'')]
     \<and> sink second_run = [HEADER, HEADER]
     \<and> sink (init_1k 5 (Some ''c'') ''Latest'' None) = [])"
  by code_simp

section \<open>The delay after a rate-limited response\<close>

text \<open>
  What holds.  When \<open>client.search_tweet\<close> raises \<open>TooManyRequests\<close> with a reset time,
  \<open>safe_search\<close> of the \<^verbatim>\<open>1k.tweet\<close> scripts sleeps \<open>max(resetAt - now, 0) + 10\<close> and the
  next thing it does is the search again; \<open>safe_search_with_retry\<close> of the Dynamic scripts
  sleeps \<open>max(resetAt - now, 0) + 5\<close> when the reset time is not zero, whatever the generic
  delay ladder is, and then searches again when an attempt is left; with none left it
  returns, and no retry follows the sleep.  For \<open>resetAt = now + 500\<close> the delay lies
  between 500 and 500 plus the margin.
\<close>

theorem rate_limit_delay_until_reset:
  "(\<exists>evs. fst (snd (safe_search q p n c (TooManyRequests (ResetAt resetAt) now # rs))) =
            Search q p n c # Sleep (rate_limit_delay_spec 10 resetAt now) # Search q p n c # evs)
   \<and> (attempt < MAX_RETRIES \<and> resetAt \<noteq> 0 \<longrightarrow>
        (\<exists>evs. fst (snd (safe_search_with_retry d q p n c attempt (TooManyRequests (ResetAt resetAt) now # rs))) =
                 Search q p n c # Sleep (rate_limit_delay_spec 5 resetAt now) # evs
             \<and> (if attempt + 1 < MAX_RETRIES then \<exists>evs'. evs = Search q p n c # evs' else evs = [])))
   \<and> (0 \<le> margin \<longrightarrow>
        500 \<le> rate_limit_delay_spec margin (now + 500) now
      \<and> rate_limit_delay_spec margin (now + 500) now \<le> 500 + margin)"
proof (intro conjI impI)
  show "\<exists>evs. fst (snd (safe_search q p n c (TooManyRequests (ResetAt resetAt) now # rs))) =
            Search q p n c # Sleep (rate_limit_delay_spec 10 resetAt now) # Search q p n c # evs"
    using safe_search_starts_with_search [of q p n c rs]
    by (auto simp: Let_def rate_limit_delay_spec_def)
next
  assume a: "attempt < MAX_RETRIES \<and> resetAt \<noteq> 0"
  show "\<exists>evs. fst (snd (safe_search_with_retry d q p n c attempt (TooManyRequests (ResetAt resetAt) now # rs))) =
                 Search q p n c # Sleep (rate_limit_delay_spec 5 resetAt now) # evs
             \<and> (if attempt + 1 < MAX_RETRIES then \<exists>evs'. evs = Search q p n c # evs' else evs = [])"
  proof (cases "attempt + 1 < MAX_RETRIES")
    case True
    then show ?thesis
      using a safe_search_with_retry_starts_with_search [of "attempt + 1" d q p n c rs]
      by (auto simp: Let_def rate_limit_delay_spec_def)
  next
    case False
    then show ?thesis
      using a safe_search_with_retry_exhausted [of "attempt + 1" d q p n c rs]
      by (auto simp: Let_def rate_limit_delay_spec_def)
  qed
next
  assume "0 \<le> margin"
  then show "500 \<le> rate_limit_delay_spec margin (now + 500) now"
    by (simp add: rate_limit_delay_spec_def)
next
  assume "0 \<le> margin"
  then show "rate_limit_delay_spec margin (now + 500) now \<le> 500 + margin"
    by (simp add: rate_limit_delay_spec_def)
qed

theorem rate_limit_delay_until_reset_witness:
  "(0::nat) < MAX_RETRIES \<and> (1500::real) \<noteq> 0 \<and> (0::real) \<le> 10
   \<and> fst (snd (safe_search ''q'' ''Latest'' 20 None [TooManyRequests (ResetAt 1500) 1000, SearchError])) =
       [Search ''q'' ''Latest'' 20 None, Sleep 510, Search ''q'' ''Latest'' 20 None, Sleep 60]
   \<and> fst (snd (safe_search_with_retry rate_limit_delay_X ''q'' ''Latest'' 20 None 0
                  [TooManyRequests (ResetAt 1500) 1000, SearchError])) =
       [Search ''q'' ''Latest'' 20 None, Sleep 505, Search ''q'' ''Latest'' 20 None, Sleep 15,
        Search ''q'' ''Latest'' 20 None]
   \<and> rate_limit_delay_spec 10 1500 1000 = 510
   \<and> rate_limit_delay_spec 5 1500 1000 = 505"
proof -
  note general = rate_limit_delay_until_reset [of "''q''" "''Latest''" 20 None 1500 1000 "[SearchError]"
      0 rate_limit_delay_X 10]
  have concrete: ?thesis
    by (simp add: MAX_RETRIES_def RETRY_DELAYS_def rate_limit_delay_spec_def rate_limit_delay_X_def Let_def)
  show ?thesis
    using general by - (rule concrete)
qed

text \<open>
  Claim C5.  The claim says that the delay until the reset, plus the margin, is the delay
  before the retry and stands in place of the generic windows.  In
  \<^verbatim>\<open>Dynamic_scrapping_X.py\<close> a rate-limited response uses up an attempt of the \<open>for\<close> loop
  (the slip of claim C4).  Here the third attempt of a search is rate limited, with the
  reset 500 seconds ahead: the script sleeps 505 seconds, and then, instead of searching
  again, returns \<open>None\<close>, counts the fifth failure, saves the checkpoint and sleeps once
  more, in the slow window \<open>random.randint(30, 60) * 5\<close>, before the next search.
\<close>

theorem loop_body_X_slow_window_after_rate_limit:
  "(let a = \<lparr>QUERY_X = ''q'', PRODUCT_X = ''Latest'', MAX_TWEETS_X = 5000\<rparr>;
        s = \<lparr>collected = 40, cursor = Some ''c9'', existing_ids = {}, sink = [HEADER], events = [],
              failures = 4, ckpt = [], last_success = None\<rparr>;
        r = run_loop_X a s
              [SearchError, SearchError, TooManyRequests (ResetAt 1500) 1000,
               Result \<lparr>tweets = [], next_cursor = None, next_page = NextRaises\<rparr> ''t1'']
    in rate_limit_delay_spec 5 1500 1000 = 505
     \<and> take 9 (events (snd r)) =
         [Search ''q'' ''Latest'' 20 (Some ''c9''), Sleep 5,
          Search ''q'' ''Latest'' 20 (Some ''c9''), Sleep 15,
          Search ''q'' ''Latest'' 20 (Some ''c9''), Sleep 505,
          SaveCheckpoint [(''count'', JNum 40), (''cursor'', JNull), (''last_success'', JNull)],
          SleepRandint 30 60 5,
          Search ''q'' ''Latest'' 20 None])"
  by (simp add: run_loop_X.simps loop_body_X_def Let_def rate_limit_delay_X_def MAX_RETRIES_def
      RETRY_DELAYS_def BATCH_SIZE_def MAX_FAILURES_X_def rate_limit_delay_spec_def log_def
      save_checkpoint_X_def update_checkpoint_dict_def json_of_cursor_def json_of_stamp_def)

section \<open>The rotation of strategies and query variations\<close>

text \<open>
  Claim C6, as stated, fails on \<^verbatim>\<open>1k.tweet_2.py\<close>: an iteration that records one new
  tweet from a page without any continuation resets the variation index and remembers the
  strategy, and then moves on to the next strategy.
\<close>

theorem success_rotates_strategy_counterexample:
  "(let l = \<lparr>kw_or = ''(a OR b)'', kw_a = ''a'', kw_b = ''b'',
              d30 = ''2025-08-01'', d60 = ''2025-07-01'', d90 = ''2025-06-01''\<rparr>;
        tw = \<lparr>tweet_id = ''11'', screen_name = ''ann'', tweet_text = ''hi'', created_at = ''d1'',
               retweet_count = 0, favorite_count = 12, reply_count = 3\<rparr>;
        pg = \<lparr>tweets = [tw], next_cursor = None, next_page = NextRaises\<rparr>;
        s = \<lparr>collected = 0, cursor = None, existing_ids = {}, sink = [HEADER], events = [],
              strategy_index = 0, last_successful_strategy = 0, consecutive_failures = 0,
              last_success_time = None, query_variations = 3\<rparr>;
        s' = fst (snd (loop_body_2 l ''(a OR b)'' s [Result pg ''t1'']))
    in new_items s pg = 1
     \<and> collected s' = collected s + 1
     \<and> query_variations s' = 0
     \<and> last_successful_strategy s' = 0
     \<and> strategy_index s = 0
     \<and> strategy_index s' = 1
     \<and> strategy_index s' \<noteq> strategy_index s)"
  by code_simp

text \<open>
  Claim C6, amended.  Take an iteration of \<^verbatim>\<open>1k.tweet_2.py\<close> whose strategy index is in
  range and whose search has ended.  When it yields no new item or an error (an exception
  out of the search, no result, an empty page, or a page of known ids), the strategy index
  advances by one modulo the number of strategies, the variation index advances by one
  modulo the number of variations, and the cursor is cleared.  When it yields at least one
  new item, the variation index is reset to zero and the strategy is remembered; the
  strategy index is unchanged when a continuation is obtained (which becomes the cursor),
  and advances by one modulo the number of strategies, with the cursor cleared, when none
  is.
\<close>

theorem rotation_amended:
  assumes "py_nth SEARCH_STRATEGIES (strategy_index s) = Some (product, count)"
    and "safe_search (generate_query_variations l Q (query_variations s)) product count (cursor s) rs
           = (outcome, es, rest)"
    and "outcome \<noteq> Pending"
  shows "(let s' = fst (snd (loop_body_2 l Q s rs));
              n = (case outcome of Returned (Some (pg, now)) \<Rightarrow> new_items s pg | _ \<Rightarrow> 0)
          in if n = 0
             then strategy_index s' = (strategy_index s + 1) mod int (length SEARCH_STRATEGIES)
                \<and> query_variations s' = (query_variations s + 1) mod int (length (variations l Q))
                \<and> cursor s' = None
             else query_variations s' = 0
                \<and> last_successful_strategy s' = strategy_index s
                \<and> (case outcome of
                      Returned (Some (pg, now)) \<Rightarrow>
                        if truthy (continuation pg)
                        then strategy_index s' = strategy_index s \<and> cursor s' = continuation pg
                        else strategy_index s' = (strategy_index s + 1) mod int (length SEARCH_STRATEGIES)
                           \<and> cursor s' = None
                    | _ \<Rightarrow> False))"
proof (cases outcome)
  case Pending
  then show ?thesis using assms by simp
next
  case Raised
  then show ?thesis
    using assms
    by (simp add: loop_body_2_def Let_def try_different_def save_checkpoint_2_def log_def length_variations)
next
  case (Returned result)
  show ?thesis
  proof (cases result)
    case None
    then show ?thesis
      using assms Returned
      by (simp add: loop_body_2_def Let_def try_different_def save_checkpoint_2_def log_def length_variations)
  next
    case (Some a)
    obtain pg now where a: "a = (pg, now)" by (cases a)
    obtain new where new: "save_tweets_batch (tweets pg) (log es s) =
        (int (card (tweet_id ` set (tweets pg) - existing_ids (log es s))),
         (log es s)\<lparr>existing_ids := existing_ids (log es s) \<union> set (map tweet_id new),
           sink := sink (log es s) @ map row_of new,
           events := events (log es s) @ map WriteRow (map row_of new)\<rparr>)"
      using save_tweets_batch_frame [of "tweets pg" "log es s"] by blast
    define n where "n = card (tweet_id ` set (tweets pg) - existing_ids s)"
    have ids: "existing_ids (log es s) = existing_ids s"
      by (simp add: log_def)
    have e: "tweets pg = [] \<Longrightarrow> n = 0"
      by (simp add: n_def)
    have t: "\<not> truthy None"
      by (simp add: truthy_def)
    show ?thesis
    proof (cases "n = 0")
      case True
      then show ?thesis
        using assms Returned Some a new
        unfolding ids n_def [symmetric] new_items_def
        by (simp add: loop_body_2_def Let_def try_different_def save_checkpoint_2_def
            log_def length_variations n_def [symmetric])
    next
      case False
      then have ne: "tweets pg \<noteq> []" and pos: "0 < n"
        using e by auto
      show ?thesis
        using assms Returned Some a new ne pos t
        unfolding ids n_def [symmetric] new_items_def
        by (cases "next_page pg")
          (simp_all add: loop_body_2_def Let_def next_strategy_def save_checkpoint_2_def
            log_def continuation_def n_def [symmetric])
    qed
  qed
qed

text \<open>The amended claim at an iteration whose search raises: the exception has
  \<open>rate_limit_reset = None\<close>, so the handler of \<open>safe_search\<close> raises \<open>TypeError\<close>, which the
  loop's \<open>except\<close> takes.\<close>

theorem rotation_amended_witness:
  "(let l = \<lparr>kw_or = ''(a OR b)'', kw_a = ''a'', kw_b = ''b'',
              d30 = ''2025-08-01'', d60 = ''2025-07-01'', d90 = ''2025-06-01''\<rparr>;
        s = \<lparr>collected = 0, cursor = Some ''c5'', existing_ids = {}, sink = [HEADER], events = [],
              strategy_index = 1, last_successful_strategy = 0, consecutive_failures = 0,
              last_success_time = None, query_variations = 7\<rparr>;
        s' = fst (snd (loop_body_2 l ''(a OR b)'' s [TooManyRequests AttributeNone 1000]))
    in py_nth SEARCH_STRATEGIES (strategy_index s) = Some (''Top'', 20)
     \<and> fst (safe_search (generate_query_variations l ''(a OR b)'' (query_variations s)) ''Top'' 20
              (cursor s) [TooManyRequests AttributeNone 1000]) = Raised
     \<and> length SEARCH_STRATEGIES = 2
     \<and> length (variations l ''(a OR b)'') = 8
     \<and> strategy_index s' = 0
     \<and> query_variations s' = 0
     \<and> consecutive_failures s' = 1
     \<and> cursor s' = None)"
proof -
  let ?l = "\<lparr>kw_or = ''(a OR b)'', kw_a = ''a'', kw_b = ''b'',
              d30 = ''2025-08-01'', d60 = ''2025-07-01'', d90 = ''2025-06-01''\<rparr>"
  let ?s = "\<lparr>collected = 0, cursor = Some ''c5'', existing_ids = {}, sink = [HEADER], events = [],
              strategy_index = 1, last_successful_strategy = 0, consecutive_failures = 0,
              last_success_time = None, query_variations = 7\<rparr>"
  have index: "py_nth SEARCH_STRATEGIES (strategy_index ?s) = Some (''Top'', 20)"
    by (simp add: py_nth_def SEARCH_STRATEGIES_def BATCH_SIZE_def)
  have search: "safe_search (generate_query_variations ?l ''(a OR b)'' (query_variations ?s)) ''Top'' 20
      (cursor ?s) [TooManyRequests AttributeNone 1000] =
      (Raised,
       [Search (generate_query_variations ?l ''(a OR b)'' (query_variations ?s)) ''Top'' 20 (cursor ?s)],
       [])"
    by simp
  have ended: "Raised \<noteq> Pending"
    by simp
  note general = rotation_amended [OF index search ended]
  have concrete: ?thesis
    by code_simp
  show ?thesis
    using general by - (rule concrete)
qed

section \<open>The guard against a repeated cursor\<close>

lemma seen_cursors_finish_iteration_D [simp]:
  "seen_cursors (snd (finish_iteration_D a s)) = seen_cursors s"
  by (simp add: finish_iteration_D_def Let_def save_checkpoint_D_def update_checkpoint_dict_def log_def)

lemma finish_iteration_D_exit:
  "fst (finish_iteration_D a s) = None \<or> fst (finish_iteration_D a s) = Some NoNewPages"
  by (simp add: finish_iteration_D_def Let_def)

lemma loop_body_D_page:
  assumes "tweets pg \<noteq> []" and "fst (new_cursor_D pg) = c" and "truthy c"
  shows "c \<in> seen_cursors s \<Longrightarrow> fst (loop_body_D a s (Result pg t # rs)) = Some CursorRepeated"
    and "c \<notin> seen_cursors s \<Longrightarrow>
           (fst (loop_body_D a s (Result pg t # rs)) = None
              \<or> fst (loop_body_D a s (Result pg t # rs)) = Some NoNewPages)
         \<and> c \<in> seen_cursors (fst (snd (loop_body_D a s (Result pg t # rs))))
         \<and> snd (snd (loop_body_D a s (Result pg t # rs))) = rs"
proof -
  let ?s1 = "log [Search (DAY_QUERY a) (PRODUCT_D a) (BATCH_SIZE_D a) (cursor s)] s"
  obtain new where new: "save_tweets_batch (tweets pg) ?s1 =
      (int (card (tweet_id ` set (tweets pg) - existing_ids ?s1)),
       ?s1\<lparr>existing_ids := existing_ids ?s1 \<union> set (map tweet_id new),
         sink := sink ?s1 @ map row_of new,
         events := events ?s1 @ map WriteRow (map row_of new)\<rparr>)"
    using save_tweets_batch_frame [of "tweets pg" ?s1] by blast
  obtain es' where nc: "new_cursor_D pg = (c, es')"
    using assms(2) by (cases "new_cursor_D pg") simp
  {
    assume "c \<in> seen_cursors s"
    then show "fst (loop_body_D a s (Result pg t # rs)) = Some CursorRepeated"
      using assms new nc
      by (simp add: loop_body_D_def Let_def MAX_RETRIES_def log_def)
  }
  {
    assume "c \<notin> seen_cursors s"
    then show "(fst (loop_body_D a s (Result pg t # rs)) = None
              \<or> fst (loop_body_D a s (Result pg t # rs)) = Some NoNewPages)
         \<and> c \<in> seen_cursors (fst (snd (loop_body_D a s (Result pg t # rs))))
         \<and> snd (snd (loop_body_D a s (Result pg t # rs))) = rs"
      using assms new nc finish_iteration_D_exit
      by (simp add: loop_body_D_def Let_def MAX_RETRIES_def log_def)
  }
qed

text \<open>
  Claim C7.  In the per-day script, let two pages with tweets come one after the other
  and give the same continuation \<open>c\<close>.  Whatever follows, the run does not go on past the
  second page: it ends with \<open>Done\<close> (the count or the failures reached their cap),
  \<open>NoNewPages\<close> (the first page was the third in a row without a new tweet) or
  \<open>CursorRepeated\<close>; and when the loop is entered, goes on after the first page and is
  entered again, it ends with \<open>CursorRepeated\<close>.
\<close>

theorem repeated_cursor_stops_run:
  assumes "tweets pg1 \<noteq> []" and "tweets pg2 \<noteq> []"
    and "fst (new_cursor_D pg1) = c" and "fst (new_cursor_D pg2) = c" and "truthy c"
  shows "fst (run_loop_D a s (Result pg1 t1 # Result pg2 t2 # rs)) \<in> {Done, NoNewPages, CursorRepeated}
    \<and> (let b = loop_body_D a s (Result pg1 t1 # Result pg2 t2 # rs); s1 = fst (snd b)
        in collected s < MAX_TWEETS_D a \<and> failures s < MAX_FAILURES_D a \<and> fst b = None
           \<and> collected s1 < MAX_TWEETS_D a \<and> failures s1 < MAX_FAILURES_D a
          \<longrightarrow> fst (run_loop_D a s (Result pg1 t1 # Result pg2 t2 # rs)) = CursorRepeated)"
proof -
  let ?rs = "Result pg1 t1 # Result pg2 t2 # rs"
  let ?b = "loop_body_D a s ?rs"
  let ?s1 = "fst (snd ?b)"
  let ?b2 = "loop_body_D a ?s1 (Result pg2 t2 # rs)"
  have second: "c \<in> seen_cursors ?s1 \<Longrightarrow> snd (snd ?b) = Result pg2 t2 # rs \<Longrightarrow> fst ?b = None \<Longrightarrow>
      fst (run_loop_D a ?s1 (snd (snd ?b))) \<in> {Done, CursorRepeated}
      \<and> (collected ?s1 < MAX_TWEETS_D a \<and> failures ?s1 < MAX_FAILURES_D a
           \<longrightarrow> fst (run_loop_D a ?s1 (snd (snd ?b))) = CursorRepeated)"
    using loop_body_D_page(1) [OF assms(2) assms(4) assms(5), of ?s1 a t2 rs]
    by (subst (1 2) run_loop_D.simps) (simp add: Let_def)
  show ?thesis
  proof (cases "collected s < MAX_TWEETS_D a \<and> failures s < MAX_FAILURES_D a")
    case False
    then have "run_loop_D a s ?rs = (Done, s)"
      by (subst run_loop_D.simps) auto
    with False show ?thesis by (auto simp: Let_def)
  next
    case True
    show ?thesis
    proof (cases "c \<in> seen_cursors s")
      case seen: True
      have "fst ?b = Some CursorRepeated"
        by (rule loop_body_D_page(1) [OF assms(1) assms(3) assms(5) seen])
      then show ?thesis
        using True by (subst (1 2) run_loop_D.simps) (simp add: Let_def)
    next
      case unseen: False
      note step = loop_body_D_page(2) [OF assms(1) assms(3) assms(5) unseen, of a t1 "Result pg2 t2 # rs"]
      show ?thesis
      proof (cases "fst ?b = None")
        case go: True
        have eq: "run_loop_D a s ?rs = run_loop_D a ?s1 (snd (snd ?b))"
          by (subst run_loop_D.simps) (use True go in \<open>simp add: Let_def\<close>)
        show ?thesis
          unfolding eq using second step go by (auto simp: Let_def)
      next
        case stop: False
        then have "fst ?b = Some NoNewPages" using step by auto
        then show ?thesis
          using True by (subst (1 2) run_loop_D.simps) (simp add: Let_def)
      qed
    qed
  qed
qed

theorem repeated_cursor_stops_run_witness:
  "(let a = \<lparr>DAY = ''2025-09-01'', BASE_QUERY = ''q'', DAY_QUERY = ''q since:2025-09-01 until:2025-09-02'',
              PRODUCT_D = ''Latest'', MAX_TWEETS_D = 100000, BATCH_SIZE_D = 20, MAX_FAILURES_D = 3\<rparr>;
        pg1 = \<lparr>tweets = [\<lparr>tweet_id = ''11'', screen_name = ''ann'', tweet_text = ''hi'',
                  created_at = ''d1'', retweet_count = 0, favorite_count = 12, reply_count = 3\<rparr>],
                next_cursor = Some ''c1'', next_page = NextRaises\<rparr>;
        pg2 = \<lparr>tweets = [\<lparr>tweet_id = ''12'', screen_name = ''bob'', tweet_text = ''yo'',
                  created_at = ''d2'', retweet_count = 1, favorite_count = 0, reply_count = 0\<rparr>],
                next_cursor = None, next_page = NextResult [] (Some ''c1'')\<rparr>;
        r = run_D a 0 None None [] None [Result pg1 ''t1'', Result pg2 ''t2'']
    in tweets pg1 \<noteq> [] \<and> tweets pg2 \<noteq> []
     \<and> fst (new_cursor_D pg1) = Some ''c1'' \<and> fst (new_cursor_D pg2) = Some ''c1''
     \<and> truthy (Some ''c1'')
     \<and> fst r = CursorRepeated
     \<and> collected (snd r) = 2)"
proof -
  let ?pg1 = "\<lparr>tweets = [\<lparr>tweet_id = ''11'', screen_name = ''ann'', tweet_text = ''hi'',
                  created_at = ''d1'', retweet_count = 0, favorite_count = 12, reply_count = 3\<rparr>],
                next_cursor = Some ''c1'', next_page = NextRaises\<rparr>"
  let ?pg2 = "\<lparr>tweets = [\<lparr>tweet_id = ''12'', screen_name = ''bob'', tweet_text = ''yo'',
                  created_at = ''d2'', retweet_count = 1, favorite_count = 0, reply_count = 0\<rparr>],
                next_cursor = None, next_page = NextResult [] (Some ''c1'')\<rparr>"
  have 1: "tweets ?pg1 \<noteq> []" and 2: "tweets ?pg2 \<noteq> []"
    by simp_all
  have 3: "fst (new_cursor_D ?pg1) = Some ''c1''" and 4: "fst (new_cursor_D ?pg2) = Some ''c1''"
    and 5: "truthy (Some ''c1'')"
    by (simp_all add: new_cursor_D_def truthy_def)
  note general = repeated_cursor_stops_run [OF 1 2 3 4 5]
  have concrete: ?thesis
    by code_simp
  show ?thesis
    using general by - (rule concrete)
qed

section \<open>An iteration whose search gives no result\<close>

text \<open>
  Claim C9, as stated, fails: in \<^verbatim>\<open>1k.tweet_3.py\<close> (and in \<^verbatim>\<open>Dynamic_scrapping_X.py\<close>) an
  iteration whose search fails does more to the loop state than count a failure: it
  clears the pagination cursor, and saves the cleared cursor in the checkpoint.
\<close>

theorem failed_fetch_clears_cursor_counterexample:
  "(let s = \<lparr>collected = 40, cursor = Some ''c9'', existing_ids = {}, sink = [HEADER], events = [],
              failures = 0, ckpt = DEFAULT_CKPT ''h''\<rparr>;
        s' = fst (snd (loop_body_3 ''q'' ''h'' s [SearchError]))
    in fst (safe_search ''q'' ''Latest'' BATCH_SIZE (cursor s) [SearchError]) = Returned None
     \<and> failures s' = failures s + 1
     \<and> cursor s = Some ''c9''
     \<and> cursor s' = None
     \<and> cursor s' \<noteq> cursor s
     \<and> map_of (ckpt s') ''cursor'' = Some JNull)"
  by code_simp

text \<open>
  Claim C9, amended.  An iteration whose search returns no result appends no row to the
  output file, adds nothing to the index and leaves the collected count unchanged.  On
  the loop state it clears the cursor, which the checkpoint saved next holds as null; in
  \<^verbatim>\<open>1k.tweet_3.py\<close>, where only an error of the search other than rate limiting makes
  \<open>safe_search\<close> return without a result, it adds one to the failure count, and so does an
  iteration of
  \<^verbatim>\<open>Dynamic_scrapping_X.py\<close> whose three attempts all fail with such an error.  After the
  search, the iteration saves the checkpoint and then sleeps, and does nothing else.
\<close>

theorem failed_fetch_amended:
  "(fst (safe_search Q ''Latest'' BATCH_SIZE (cursor s) rs) = Returned None \<longrightarrow>
      (let s' = fst (snd (loop_body_3 Q qh s rs))
       in sink s' = sink s \<and> existing_ids s' = existing_ids s \<and> collected s' = collected s
        \<and> cursor s' = None \<and> failures s' = failures s + 1
        \<and> map_of (ckpt s') ''cursor'' = Some JNull
        \<and> events s' = events s @ fst (snd (safe_search Q ''Latest'' BATCH_SIZE (cursor s) rs))
             @ [SaveCheckpoint (ckpt s'),
                if failures s' = 0 then SleepRandint 30 90 1 else SleepRandint 120 300 1]))
   \<and> (fst (safe_search_with_retry rate_limit_delay_X (QUERY_X a) (PRODUCT_X a) BATCH_SIZE (cursor x) 0 rx)
         = Returned None \<longrightarrow>
      (let x' = fst (snd (loop_body_X a x rx))
       in sink x' = sink x \<and> existing_ids x' = existing_ids x \<and> collected x' = collected x
        \<and> cursor x' = None
        \<and> map_of (ckpt x') ''cursor'' = Some JNull
        \<and> events x' = events x
             @ fst (snd (safe_search_with_retry rate_limit_delay_X (QUERY_X a) (PRODUCT_X a) BATCH_SIZE (cursor x) 0 rx))
             @ [SaveCheckpoint (ckpt x'),
                if failures x' = 0 then SleepRandint 5 15 1 else SleepRandint 30 60 (failures x')]))
   \<and> (let x' = fst (snd (loop_body_X a x (SearchError # SearchError # SearchError # rx)))
      in failures x' = failures x + 1)"
proof (intro conjI impI)
  assume "fst (safe_search Q ''Latest'' BATCH_SIZE (cursor s) rs) = Returned None"
  then obtain es rest where "safe_search Q ''Latest'' BATCH_SIZE (cursor s) rs = (Returned None, es, rest)"
    by (cases "safe_search Q ''Latest'' BATCH_SIZE (cursor s) rs") auto
  then show "let s' = fst (snd (loop_body_3 Q qh s rs))
       in sink s' = sink s \<and> existing_ids s' = existing_ids s \<and> collected s' = collected s
        \<and> cursor s' = None \<and> failures s' = failures s + 1
        \<and> map_of (ckpt s') ''cursor'' = Some JNull
        \<and> events s' = events s @ fst (snd (safe_search Q ''Latest'' BATCH_SIZE (cursor s) rs))
             @ [SaveCheckpoint (ckpt s'),
                if failures s' = 0 then SleepRandint 30 90 1 else SleepRandint 120 300 1]"
    by (simp add: loop_body_3_def Let_def save_checkpoint_3_def log_def map_of_dict_update
        json_of_cursor_def)
next
  let ?f = "safe_search_with_retry rate_limit_delay_X (QUERY_X a) (PRODUCT_X a) BATCH_SIZE (cursor x) 0 rx"
  assume "fst ?f = Returned None"
  then obtain es rest where "?f = (Returned None, es, rest)"
    by (cases ?f) auto
  then show "let x' = fst (snd (loop_body_X a x rx))
       in sink x' = sink x \<and> existing_ids x' = existing_ids x \<and> collected x' = collected x
        \<and> cursor x' = None
        \<and> map_of (ckpt x') ''cursor'' = Some JNull
        \<and> events x' = events x @ fst (snd ?f)
             @ [SaveCheckpoint (ckpt x'),
                if failures x' = 0 then SleepRandint 5 15 1 else SleepRandint 30 60 (failures x')]"
    by (simp add: loop_body_X_def Let_def save_checkpoint_X_def update_checkpoint_dict_def log_def
        map_of_dict_update json_of_cursor_def)
next
  show "let x' = fst (snd (loop_body_X a x (SearchError # SearchError # SearchError # rx)))
      in failures x' = failures x + 1"
    by (simp add: loop_body_X_def Let_def save_checkpoint_X_def update_checkpoint_dict_def log_def
        MAX_RETRIES_def safe_search_with_retry_exhausted)
qed

theorem failed_fetch_amended_witness:
  "(let s = \<lparr>collected = 40, cursor = Some ''c9'', existing_ids = {''7''}, sink = [HEADER, [''7'']],
              events = [], failures = 2, ckpt = DEFAULT_CKPT ''h''\<rparr>;
        s' = fst (snd (loop_body_3 ''q'' ''h'' s [TooManyRequests (ResetAt 1500) 1000, SearchError]));
        a = \<lparr>QUERY_X = ''q'', PRODUCT_X = ''Latest'', MAX_TWEETS_X = 5000\<rparr>;
        x = \<lparr>collected = 40, cursor = Some ''c9'', existing_ids = {''7''}, sink = [HEADER, [''7'']],
              events = [], failures = 0, ckpt = [], last_success = None\<rparr>;
        x' = fst (snd (loop_body_X a x [SearchError, SearchError, SearchError]))
    in fst (safe_search ''q'' ''Latest'' BATCH_SIZE (cursor s) [TooManyRequests (ResetAt 1500) 1000, SearchError])
         = Returned None
     \<and> fst (safe_search_with_retry rate_limit_delay_X (QUERY_X a) (PRODUCT_X a) BATCH_SIZE (cursor x) 0
              [SearchError, SearchError, SearchError]) = Returned None
     \<and> sink s' = [HEADER, [''7'']] \<and> existing_ids s' = {''7''} \<and> collected s' = 40
     \<and> cursor s' = None \<and> failures s' = 3
     \<and> events s' = [Search ''q'' ''Latest'' 20 (Some ''c9''), Sleep 510,
                      Search ''q'' ''Latest'' 20 (Some ''c9''), Sleep 60,
                      SaveCheckpoint (ckpt s'), SleepRandint 120 300 1]
     \<and> sink x' = [HEADER, [''7'']] \<and> existing_ids x' = {''7''} \<and> collected x' = 40
     \<and> cursor x' = None \<and> failures x' = 1
     \<and> events x' = [Search ''q'' ''Latest'' 20 (Some ''c9''), Sleep 5,
                      Search ''q'' ''Latest'' 20 (Some ''c9''), Sleep 15,
                      Search ''q'' ''Latest'' 20 (Some ''c9''),
                      SaveCheckpoint (ckpt x'), SleepRandint 30 60 1])"
proof -
  note general = failed_fetch_amended [of "''q''"
      "\<lparr>collected = 40, cursor = Some ''c9'', existing_ids = {''7''}, sink = [HEADER, [''7'']],
              events = [], failures = 2, ckpt = DEFAULT_CKPT ''h''\<rparr>"
      "[TooManyRequests (ResetAt 1500) 1000, SearchError]" "''h''"
      "\<lparr>QUERY_X = ''q'', PRODUCT_X = ''Latest'', MAX_TWEETS_X = 5000\<rparr>"
      "\<lparr>collected = 40, cursor = Some ''c9'', existing_ids = {''7''}, sink = [HEADER, [''7'']],
              events = [], failures = 0, ckpt = [], last_success = None\<rparr>"
      "[SearchError, SearchError, SearchError]"]
  have concrete: ?thesis
    by (simp add: loop_body_3_def loop_body_X_def Let_def save_checkpoint_3_def save_checkpoint_X_def
        update_checkpoint_dict_def log_def BATCH_SIZE_def MAX_RETRIES_def RETRY_DELAYS_def
        rate_limit_delay_X_def DEFAULT_CKPT_def json_of_cursor_def json_of_stamp_def)
  show ?thesis
    using general by - (rule concrete)
qed

section \<open>The page that is fetched only for its cursor\<close>

lemma count_list_Advance_map_WriteRow [simp]:
  "count_list (map (WriteRow \<circ> f) xs) Advance = 0"
  by (induction xs) auto

text \<open>
  Claim C10.  Take an iteration of \<^verbatim>\<open>1k.tweet.py\<close>, of \<^verbatim>\<open>Dynamic_scrapping_X.py\<close> or of
  \<^verbatim>\<open>1k.tweet_2.py\<close> (there with a strategy index in range and at least one new item)
  whose search returns a page with tweets and without a usable \<open>next_cursor\<close> of its own,
  and whose \<open>next()\<close> returns a following page with the usable cursor \<open>c\<close>.  The
  iteration calls \<open>next()\<close> once; every row it appends and every id it adds to the index
  belongs to a tweet of the first page; the cursor becomes \<open>c\<close>, the cursor of the
  following page; and the whole outcome of the iteration is the same whatever tweets the
  following page holds.
\<close>

theorem advanced_page_items_skipped:
  assumes "tweets pg \<noteq> []" and "\<not> truthy (next_cursor pg)"
    and "next_page pg = NextResult nts c" and "truthy c"
  shows "(let b = loop_body_1k Q s (Result pg now # rs); s' = fst (snd b)
          in (\<exists>new. set new \<subseteq> set (tweets pg)
                \<and> sink s' = sink s @ map row_of new
                \<and> existing_ids s' = existing_ids s \<union> set (map tweet_id new))
           \<and> cursor s' = c
           \<and> count_list (events s') Advance = count_list (events s) Advance + 1
           \<and> loop_body_1k Q s (Result (pg\<lparr>next_page := NextResult nts' c\<rparr>) now # rs) = b)
       \<and> (let b = loop_body_X a x (Result pg now # rs); x' = fst (snd b)
          in (\<exists>new. set new \<subseteq> set (tweets pg)
                \<and> sink x' = sink x @ map row_of new
                \<and> existing_ids x' = existing_ids x \<union> set (map tweet_id new))
           \<and> cursor x' = c
           \<and> count_list (events x') Advance = count_list (events x) Advance + 1
           \<and> loop_body_X a x (Result (pg\<lparr>next_page := NextResult nts' c\<rparr>) now # rs) = b)
       \<and> (py_nth SEARCH_STRATEGIES (strategy_index y) \<noteq> None \<and> 0 < new_items y pg \<longrightarrow>
          (let b = loop_body_2 l Q y (Result pg now # rs); y' = fst (snd b)
           in (\<exists>new. set new \<subseteq> set (tweets pg)
                \<and> sink y' = sink y @ map row_of new
                \<and> existing_ids y' = existing_ids y \<union> set (map tweet_id new))
           \<and> cursor y' = c
           \<and> count_list (events y') Advance = count_list (events y) Advance + 1
           \<and> loop_body_2 l Q y (Result (pg\<lparr>next_page := NextResult nts' c\<rparr>) now # rs) = b))"
proof (intro conjI impI)
  let ?s1 = "log [Search Q (product_1k s) BATCH_SIZE (cursor s)] s"
  obtain new where new: "set new \<subseteq> set (tweets pg)" "save_tweets_batch (tweets pg) ?s1 =
      (int (card (tweet_id ` set (tweets pg) - existing_ids ?s1)),
       ?s1\<lparr>existing_ids := existing_ids ?s1 \<union> set (map tweet_id new),
         sink := sink ?s1 @ map row_of new,
         events := events ?s1 @ map WriteRow (map row_of new)\<rparr>)"
    using save_tweets_batch_frame [of "tweets pg" ?s1] by blast
  show "let b = loop_body_1k Q s (Result pg now # rs); s' = fst (snd b)
          in (\<exists>new. set new \<subseteq> set (tweets pg)
                \<and> sink s' = sink s @ map row_of new
                \<and> existing_ids s' = existing_ids s \<union> set (map tweet_id new))
           \<and> cursor s' = c
           \<and> count_list (events s') Advance = count_list (events s) Advance + 1
           \<and> loop_body_1k Q s (Result (pg\<lparr>next_page := NextResult nts' c\<rparr>) now # rs) = b"
    using assms new
    apply (simp add: loop_body_1k_def Let_def save_checkpoint_1k_def log_def)
    apply (intro conjI exI [of _ new])
    apply simp_all
    done
next
  let ?x1 = "log [Search (QUERY_X a) (PRODUCT_X a) BATCH_SIZE (cursor x)] x"
  obtain new where new: "set new \<subseteq> set (tweets pg)" "save_tweets_batch (tweets pg) ?x1 =
      (int (card (tweet_id ` set (tweets pg) - existing_ids ?x1)),
       ?x1\<lparr>existing_ids := existing_ids ?x1 \<union> set (map tweet_id new),
         sink := sink ?x1 @ map row_of new,
         events := events ?x1 @ map WriteRow (map row_of new)\<rparr>)"
    using save_tweets_batch_frame [of "tweets pg" ?x1] by blast
  show "let b = loop_body_X a x (Result pg now # rs); x' = fst (snd b)
          in (\<exists>new. set new \<subseteq> set (tweets pg)
                \<and> sink x' = sink x @ map row_of new
                \<and> existing_ids x' = existing_ids x \<union> set (map tweet_id new))
           \<and> cursor x' = c
           \<and> count_list (events x') Advance = count_list (events x) Advance + 1
           \<and> loop_body_X a x (Result (pg\<lparr>next_page := NextResult nts' c\<rparr>) now # rs) = b"
    using assms new
    apply (simp add: loop_body_X_def Let_def save_checkpoint_X_def update_checkpoint_dict_def log_def
        MAX_RETRIES_def)
    apply (intro conjI exI [of _ new])
    apply simp_all
    done
next
  assume h: "py_nth SEARCH_STRATEGIES (strategy_index y) \<noteq> None \<and> 0 < new_items y pg"
  then obtain product count where idx: "py_nth SEARCH_STRATEGIES (strategy_index y) = Some (product, count)"
    by (cases "py_nth SEARCH_STRATEGIES (strategy_index y)") auto
  let ?y1 = "log [Search (generate_query_variations l Q (query_variations y)) product count (cursor y)] y"
  obtain new where new: "set new \<subseteq> set (tweets pg)" "save_tweets_batch (tweets pg) ?y1 =
      (int (card (tweet_id ` set (tweets pg) - existing_ids ?y1)),
       ?y1\<lparr>existing_ids := existing_ids ?y1 \<union> set (map tweet_id new),
         sink := sink ?y1 @ map row_of new,
         events := events ?y1 @ map WriteRow (map row_of new)\<rparr>)"
    using save_tweets_batch_frame [of "tweets pg" ?y1] by blast
  have pos: "0 < card (tweet_id ` set (tweets pg) - existing_ids y)"
    using h by (simp add: new_items_def)
  show "let b = loop_body_2 l Q y (Result pg now # rs); y' = fst (snd b)
           in (\<exists>new. set new \<subseteq> set (tweets pg)
                \<and> sink y' = sink y @ map row_of new
                \<and> existing_ids y' = existing_ids y \<union> set (map tweet_id new))
           \<and> cursor y' = c
           \<and> count_list (events y') Advance = count_list (events y) Advance + 1
           \<and> loop_body_2 l Q y (Result (pg\<lparr>next_page := NextResult nts' c\<rparr>) now # rs) = b"
    using assms new idx pos
    apply (simp add: loop_body_2_def Let_def save_checkpoint_2_def log_def)
    apply (intro conjI exI [of _ new])
    apply simp_all
    done
qed

theorem advanced_page_items_skipped_witness:
  "(let twA = \<lparr>tweet_id = ''11'', screen_name = ''ann'', tweet_text = ''hi'', created_at = ''d1'',
                retweet_count = 0, favorite_count = 12, reply_count = 3\<rparr>;
        twB = \<lparr>tweet_id = ''12'', screen_name = ''bob'', tweet_text = ''yo'', created_at = ''d2'',
                retweet_count = 1, favorite_count = 0, reply_count = 0\<rparr>;
        pg = \<lparr>tweets = [twA], next_cursor = None, next_page = NextResult [twB] (Some ''c2'')\<rparr>;
        s = \<lparr>collected = 0, cursor = None, existing_ids = {}, sink = [HEADER], events = [],
              product_1k = ''Latest''\<rparr>;
        s' = fst (snd (loop_body_1k ''q'' s [Result pg ''t1'']))
    in tweets pg \<noteq> [] \<and> \<not> truthy (next_cursor pg) \<and> truthy (Some ''c2'')
     \<and> sink s' = [HEADER, row_of twA]
     \<and> existing_ids s' = {''11''}
     \<and> collected s' = 1
     \<and> cursor s' = Some ''c2''
     \<and> events s' = [Search ''q'' ''Latest'' 20 None, WriteRow (row_of twA), Advance,
                      SaveCheckpoint [(''count'', JNum 1), (''cursor'', JStr ''c2''),
                                      (''product'', JStr ''Latest'')],
                      Sleep 10])"
proof -
  let ?twA = "\<lparr>tweet_id = ''11'', screen_name = ''ann'', tweet_text = ''hi'', created_at = ''d1'',
                retweet_count = 0, favorite_count = 12, reply_count = 3\<rparr>"
  let ?twB = "\<lparr>tweet_id = ''12'', screen_name = ''bob'', tweet_text = ''yo'', created_at = ''d2'',
                retweet_count = 1, favorite_count = 0, reply_count = 0\<rparr>"
  let ?pg = "\<lparr>tweets = [?twA], next_cursor = None, next_page = NextResult [?twB] (Some ''c2'')\<rparr>"
  have 1: "tweets ?pg \<noteq> []" and 2: "\<not> truthy (next_cursor ?pg)"
    and 3: "next_page ?pg = NextResult [?twB] (Some ''c2'')" and 4: "truthy (Some ''c2'')"
    by (simp_all add: truthy_def)
  note general = advanced_page_items_skipped [OF 1 2 3 4]
  have concrete: ?thesis
    by code_simp
  show ?thesis
    using general by - (rule concrete)
qed

end
